theory Spec2Isabelle
  imports Complex_Main
begin

section \<open>JavaScript numbers\<close>

text \<open>
  A JavaScript \<open>number\<close> is an IEEE 754 double. The model keeps the values up to
  \<open>===\<close>: the finite doubles as the reals they denote (so \<open>0\<close> and \<open>-0\<close> are one
  value), the two infinities, and one \<open>NaN\<close>. An arithmetic operation computes the
  exact real result of finite operands and rounds it to the nearest double, ties to the
  even significand, overflowing to an infinity; this is \<open>fl\<close>.
\<close>

datatype js_number = Finite real | PosInf | NegInf | NaN

text \<open>The nearest integer, a tie going to the even one.\<close>

definition round_even :: "real \<Rightarrow> int" where
  "round_even y =
     (let f = \<lfloor>y\<rfloor>; d = y - of_int f
      in if d < 1 / 2 then f else if 1 / 2 < d then f + 1 else if even f then f else f + 1)"

text \<open>
  The binary exponent of a positive real \<open>x\<close>, that is \<open>\<lfloor>log\<^sub>2 x\<rfloor>\<close>, found by
  halving (\<open>x \<ge> 1\<close>) or doubling (\<open>x < 1\<close>); doubling stops at \<open>-1022\<close>, the exponent
  of the subnormal doubles.
\<close>

function exp_hi :: "real \<Rightarrow> int" where
  "exp_hi x = (if x < 2 then 0 else exp_hi (x / 2) + 1)"
  by pat_completeness auto
termination
  by (relation "measure (\<lambda>x. nat \<lceil>x\<rceil>)") (auto, linarith)

declare exp_hi.simps [simp del]

function exp_lo :: "nat \<Rightarrow> real \<Rightarrow> int" where
  "exp_lo k x = (if 1 \<le> x \<or> 1022 \<le> k then - int k else exp_lo (Suc k) (2 * x))"
  by pat_completeness auto
termination
  by (relation "measure (\<lambda>(k, x). 1022 - k)") auto

declare exp_lo.simps [simp del]

definition exponent :: "real \<Rightarrow> int" where
  "exponent x = (if 1 \<le> x then exp_hi x else exp_lo 0 x)"

text \<open>The distance between neighbouring doubles around \<open>x\<close>: 53 significant bits.\<close>

definition ulp :: "real \<Rightarrow> real" where
  "ulp x = 2 powi (exponent x - 52)"

text \<open>
  Rounding a positive real. A real of \<open>2\<^sup>1\<^sup>0\<^sup>2\<^sup>4\<close> or more, or one that rounds up to
  \<open>2\<^sup>1\<^sup>0\<^sup>2\<^sup>4\<close>, becomes \<open>Infinity\<close>.
\<close>

definition fl_pos :: "real \<Rightarrow> js_number" where
  "fl_pos x =
     (if 2 ^ 1024 \<le> x then PosInf
      else (let r = of_int (round_even (x / ulp x)) * ulp x
            in if 2 ^ 1024 \<le> r then PosInf else Finite r))"

fun js_neg :: "js_number \<Rightarrow> js_number" where
  "js_neg (Finite x) = Finite (- x)"
| "js_neg PosInf = NegInf"
| "js_neg NegInf = PosInf"
| "js_neg NaN = NaN"

definition fl :: "real \<Rightarrow> js_number" where
  "fl x = (if x = 0 then Finite 0 else if 0 < x then fl_pos x else js_neg (fl_pos (- x)))"

text \<open>A real is a double when rounding leaves it as it is.\<close>

definition is_double :: "real \<Rightarrow> bool" where
  "is_double x = (fl x = Finite x)"

text \<open>The values a JavaScript number can have.\<close>

fun js_valid :: "js_number \<Rightarrow> bool" where
  "js_valid (Finite x) = is_double x"
| "js_valid PosInf = True"
| "js_valid NegInf = True"
| "js_valid NaN = True"

text \<open>\<open>a + b\<close>\<close>

fun js_add :: "js_number \<Rightarrow> js_number \<Rightarrow> js_number" where
  "js_add (Finite a) (Finite b) = fl (a + b)"
| "js_add NaN b = NaN"
| "js_add a NaN = NaN"
| "js_add PosInf NegInf = NaN"
| "js_add NegInf PosInf = NaN"
| "js_add PosInf b = PosInf"
| "js_add a PosInf = PosInf"
| "js_add NegInf b = NegInf"
| "js_add a NegInf = NegInf"

text \<open>\<open>a * b\<close>\<close>

fun js_mul :: "js_number \<Rightarrow> js_number \<Rightarrow> js_number" where
  "js_mul (Finite a) (Finite b) = fl (a * b)"
| "js_mul NaN b = NaN"
| "js_mul a NaN = NaN"
| "js_mul PosInf (Finite b) = (if b = 0 then NaN else if 0 < b then PosInf else NegInf)"
| "js_mul NegInf (Finite b) = (if b = 0 then NaN else if 0 < b then NegInf else PosInf)"
| "js_mul (Finite a) PosInf = (if a = 0 then NaN else if 0 < a then PosInf else NegInf)"
| "js_mul (Finite a) NegInf = (if a = 0 then NaN else if 0 < a then NegInf else PosInf)"
| "js_mul PosInf PosInf = PosInf"
| "js_mul PosInf NegInf = NegInf"
| "js_mul NegInf PosInf = NegInf"
| "js_mul NegInf NegInf = PosInf"

text \<open>
  \<open>a / b\<close>. JavaScript's division never raises: a zero divisor gives \<open>Infinity\<close>,
  \<open>-Infinity\<close> or \<open>NaN\<close>, by the signs of the operands and of the zero. The model has
  one zero and cannot tell which, so it makes a division by zero an error value; that
  \<open>calculateShares\<close> returns \<open>Inr\<close> then says that it never divides by zero.
\<close>

datatype js_error = DivisionByZero

fun js_div :: "js_number \<Rightarrow> js_number \<Rightarrow> js_error + js_number" where
  "js_div a (Finite b) =
     (if b = 0 then Inl DivisionByZero
      else (case a of
              Finite x \<Rightarrow> Inr (fl (x / b))
            | PosInf \<Rightarrow> Inr (if 0 < b then PosInf else NegInf)
            | NegInf \<Rightarrow> Inr (if 0 < b then NegInf else PosInf)
            | NaN \<Rightarrow> Inr NaN))"
| "js_div a NaN = Inr NaN"
| "js_div NaN b = Inr NaN"
| "js_div (Finite x) b = Inr (Finite 0)"
| "js_div a b = Inr NaN"

text \<open>\<open>a > b\<close> and \<open>a === b\<close>; every comparison with \<open>NaN\<close> is false.\<close>

fun js_gt :: "js_number \<Rightarrow> js_number \<Rightarrow> bool" where
  "js_gt (Finite a) (Finite b) = (b < a)"
| "js_gt NaN b = False"
| "js_gt a NaN = False"
| "js_gt a PosInf = False"
| "js_gt PosInf b = True"
| "js_gt NegInf b = False"
| "js_gt a NegInf = True"

definition js_strict_equal :: "js_number \<Rightarrow> js_number \<Rightarrow> bool" where
  "js_strict_equal a b = (a \<noteq> NaN \<and> a = b)"

text \<open>\<open>xs.reduce((sum, x) => sum + x, 0)\<close>: the running total, added left to right.\<close>

definition js_sum :: "js_number list \<Rightarrow> js_number" where
  "js_sum xs = foldl js_add (Finite 0) xs"

text \<open>
  The real a finite number denotes (\<open>0\<close> for the others), and \<open>Number.isInteger\<close>.
\<close>

fun num_val :: "js_number \<Rightarrow> real" where
  "num_val (Finite x) = x"
| "num_val PosInf = 0"
| "num_val NegInf = 0"
| "num_val NaN = 0"

fun is_whole :: "js_number \<Rightarrow> bool" where
  "is_whole (Finite x) = (x = of_int \<lfloor>x\<rfloor>)"
| "is_whole PosInf = False"
| "is_whole NegInf = False"
| "is_whole NaN = False"

section \<open>Data model (types.ts)\<close>

text \<open>
  The TypeScript interfaces become records. The three interfaces each have a field
  \<open>id\<close> (and two a field \<open>name\<close>); the fields are prefixed here.
\<close>

record ReceiptItem =
  item_id :: string
  item_name :: string
  quantity :: js_number
  price :: js_number

record Participant =
  p_id :: string
  p_name :: string

record ParticipantShare =
  participantId :: string
  participantName :: string
  items :: "ReceiptItem list"
  subtotal :: js_number
  taxShare :: js_number
  serviceFeeShare :: js_number
  totalOwed :: js_number

text \<open>
  \<open>itemAssignments: { [itemId: string]: string | null }\<close>: a lookup is \<open>None\<close> when
  the key is absent (JavaScript's \<open>undefined\<close>), \<open>Some None\<close> when it holds
  \<open>null\<close>, and \<open>Some (Some pid)\<close> when it holds a participant id. Item ids are
  UUIDs (\<open>crypto.randomUUID()\<close>), so a lookup never reaches a property inherited from
  \<open>Object.prototype\<close>; the object is a plain map.
\<close>

type_synonym assignments = "string \<Rightarrow> string option option"

record BillSession =
  bill_id :: string
  createdAt :: nat
  description :: "string option"
  receiptImage :: "(string \<times> string) option"
  extractedItems :: "ReceiptItem list"
  participants :: "Participant list"
  itemAssignments :: assignments
  taxAmount :: js_number
  serviceFeeAmount :: js_number

record StoredBillSession = BillSession +
  calculatedShares :: "ParticipantShare list option"

datatype AppStep = UPLOAD_RECEIPT | EDIT_BILL_DETAILS | VIEW_SUMMARY | VIEW_HISTORY

section \<open>The allocation engine (App.tsx, calculateShares)\<close>

text \<open>\<open>xs.forEach(f)\<close> where \<open>f\<close> updates the element in place and may fail.\<close>

fun forEach :: "('a \<Rightarrow> js_error + 'a) \<Rightarrow> 'a list \<Rightarrow> js_error + 'a list" where
  "forEach f [] = Inr []"
| "forEach f (x # xs) =
     (case f x of
        Inl e \<Rightarrow> Inl e
      | Inr y \<Rightarrow> (case forEach f xs of Inl e \<Rightarrow> Inl e | Inr ys \<Rightarrow> Inr (y # ys)))"

definition initial_share :: "Participant \<Rightarrow> ParticipantShare" where
  "initial_share p =
     \<lparr>participantId = p_id p, participantName = p_name p, items = [],
      subtotal = Finite 0, taxShare = Finite 0, serviceFeeShare = Finite 0,
      totalOwed = Finite 0\<rparr>"

text \<open>
  \<open>const share = participantShares.find(s => s.participantId === assignedParticipantId);
  if (share) { share.items.push(item); share.subtotal += itemLineTotal; }\<close>:
  the first share with that id is updated; when there is none, nothing changes.
\<close>

fun push_to_share :: "ReceiptItem \<Rightarrow> string \<Rightarrow> ParticipantShare list \<Rightarrow> ParticipantShare list" where
  "push_to_share item pid [] = []"
| "push_to_share item pid (s # ss) =
     (if participantId s = pid
      then s\<lparr>items := items s @ [item], subtotal := js_add (subtotal s) (price item)\<rparr> # ss
      else s # push_to_share item pid ss)"

text \<open>
  The body of \<open>currentBill.extractedItems.forEach(item => ...)\<close>, on the pair of the
  shares and the running \<open>totalBillSubtotal\<close>. \<open>if (assignedParticipantId)\<close> is
  JavaScript truthiness: \<open>undefined\<close>, \<open>null\<close> and the empty string are falsy.
\<close>

definition process_item ::
  "BillSession \<Rightarrow> ParticipantShare list \<times> js_number \<Rightarrow> ReceiptItem
     \<Rightarrow> ParticipantShare list \<times> js_number" where
  "process_item b st item =
     (let itemLineTotal = price item;
          totalBillSubtotal = js_add (snd st) itemLineTotal
      in case itemAssignments b (item_id item) of
           Some (Some assignedParticipantId) \<Rightarrow>
             (if assignedParticipantId \<noteq> []
              then (push_to_share item assignedParticipantId (fst st), totalBillSubtotal)
              else (fst st, totalBillSubtotal))
         | _ \<Rightarrow> (fst st, totalBillSubtotal))"

definition process_items :: "BillSession \<Rightarrow> ParticipantShare list \<times> js_number" where
  "process_items b =
     foldl (process_item b) (map initial_share (participants b), Finite 0) (extractedItems b)"

definition equal_split :: "BillSession \<Rightarrow> nat \<Rightarrow> ParticipantShare \<Rightarrow> js_error + ParticipantShare" where
  "equal_split b numParticipants share =
     (case js_div (taxAmount b) (Finite (real numParticipants)) of
        Inl e \<Rightarrow> Inl e
      | Inr t \<Rightarrow>
          (case js_div (serviceFeeAmount b) (Finite (real numParticipants)) of
             Inl e \<Rightarrow> Inl e
           | Inr f \<Rightarrow> Inr (share\<lparr>taxShare := t, serviceFeeShare := f\<rparr>)))"

definition proportional_split ::
  "BillSession \<Rightarrow> js_number \<Rightarrow> ParticipantShare \<Rightarrow> js_error + ParticipantShare" where
  "proportional_split b totalBillSubtotal share =
     (case js_div (subtotal share) totalBillSubtotal of
        Inl e \<Rightarrow> Inl e
      | Inr proportion \<Rightarrow>
          Inr (share\<lparr>taxShare := js_mul (taxAmount b) proportion,
                     serviceFeeShare := js_mul (serviceFeeAmount b) proportion\<rparr>))"

definition set_totalOwed :: "ParticipantShare \<Rightarrow> ParticipantShare" where
  "set_totalOwed share =
     share\<lparr>totalOwed := js_add (js_add (subtotal share) (taxShare share)) (serviceFeeShare share)\<rparr>"

definition distribute_fees ::
  "BillSession \<Rightarrow> ParticipantShare list \<Rightarrow> js_number \<Rightarrow> js_error + ParticipantShare list" where
  "distribute_fees b participantShares totalBillSubtotal =
     (if js_strict_equal totalBillSubtotal (Finite 0)
         \<and> (js_gt (taxAmount b) (Finite 0) \<or> js_gt (serviceFeeAmount b) (Finite 0)) then
        (let numParticipants = length (participants b)
         in if numParticipants > 0
            then forEach (equal_split b numParticipants) participantShares
            else Inr participantShares)
      else if js_gt totalBillSubtotal (Finite 0) then
        forEach (proportional_split b totalBillSubtotal) participantShares
      else Inr participantShares)"

definition calculateShares :: "BillSession option \<Rightarrow> js_error + ParticipantShare list" where
  "calculateShares currentBill =
     (case currentBill of
        None \<Rightarrow> Inr []
      | Some b \<Rightarrow>
          if length (participants b) = 0 then Inr []
          else
            (case distribute_fees b (fst (process_items b)) (snd (process_items b)) of
               Inl e \<Rightarrow> Inl e
             | Inr participantShares \<Rightarrow> Inr (map set_totalOwed participantShares)))"

section \<open>The history store (services/storageService.ts)\<close>

text \<open>
  The browser's \<open>localStorage\<close>, as far as the store uses it: the value under the
  one key \<open>LOCAL_STORAGE_BILLS_KEY\<close>, and whether \<open>getItem\<close> or \<open>setItem\<close> throws.
  The value is absent (\<open>getItem\<close> returns \<open>null\<close>), or a string that
  \<open>JSON.parse\<close> rejects, or the JSON of a list of bills. \<open>JSON.parse\<close> of what
  \<open>JSON.stringify\<close> wrote is taken to give the list back; this holds of bills whose
  numbers are finite (\<open>JSON.stringify\<close> writes \<open>NaN\<close> and the infinities as
  \<open>null\<close>).
\<close>

datatype stored_item = NoItem | Unparsable | Parsed "StoredBillSession list"

record LocalStorage =
  stored_bills :: stored_item
  getItem_throws :: bool
  setItem_throws :: bool

definition loadBillsFromStorage :: "LocalStorage \<Rightarrow> StoredBillSession list" where
  "loadBillsFromStorage st =
     (if getItem_throws st then []
      else (case stored_bills st of
              Parsed bills \<Rightarrow> bills
            | Unparsable \<Rightarrow> []
            | NoItem \<Rightarrow> []))"

definition saveBillsToStorage :: "StoredBillSession list \<Rightarrow> LocalStorage \<Rightarrow> LocalStorage" where
  "saveBillsToStorage bills st =
     (if setItem_throws st then st else st\<lparr>stored_bills := Parsed bills\<rparr>)"

definition addBillToStorage ::
  "StoredBillSession \<Rightarrow> LocalStorage \<Rightarrow> StoredBillSession list \<times> LocalStorage" where
  "addBillToStorage bill st =
     (let bills = loadBillsFromStorage st;
          updatedBills = bill # bills
      in (updatedBills, saveBillsToStorage updatedBills st))"

definition deleteBillFromStorage ::
  "string \<Rightarrow> LocalStorage \<Rightarrow> StoredBillSession list \<times> LocalStorage" where
  "deleteBillFromStorage billId st =
     (let bills = loadBillsFromStorage st;
          updatedBills = filter (\<lambda>b. bill_id b \<noteq> billId) bills
      in (updatedBills, saveBillsToStorage updatedBills st))"

definition clearAllBillsFromStorage :: "LocalStorage \<Rightarrow> StoredBillSession list \<times> LocalStorage" where
  "clearAllBillsFromStorage st = ([], saveBillsToStorage [] st)"

section \<open>The bill lifecycle controller (App.tsx)\<close>

text \<open>The component's \<open>useState\<close> cells. A handler maps the state to the next one.\<close>

record AppState =
  currentBill :: "BillSession option"
  appStep :: AppStep
  isLoading :: bool
  errorMessage :: string
  successMessage :: string
  historicalBills :: "StoredBillSession list"
  participantNameInput :: string
  viewingBillDetails :: "StoredBillSession option"

definition clearMessages :: "AppState \<Rightarrow> AppState" where
  "clearMessages s = s\<lparr>errorMessage := [], successMessage := []\<rparr>"

text \<open>JavaScript truthiness of a \<open>string | null | undefined\<close>.\<close>

fun js_truthy :: "string option option \<Rightarrow> bool" where
  "js_truthy (Some (Some str)) = (str \<noteq> [])"
| "js_truthy (Some None) = False"
| "js_truthy None = False"

text \<open>A length inside a template literal: the decimal digits of a natural number.\<close>

definition digit_char :: "nat \<Rightarrow> char" where
  "digit_char d = ''0123456789'' ! (d mod 10)"

function string_of_nat :: "nat \<Rightarrow> string" where
  "string_of_nat n =
     (if n < 10 then [digit_char n] else string_of_nat (n div 10) @ [digit_char (n mod 10)])"
  by pat_completeness auto
termination
  by (relation "measure (\<lambda>n. n)") auto

declare string_of_nat.simps [simp del]

text \<open>
  \<open>Object.entries(itemAssignments).filter(([, pId]) => pId !== participantId)
  .reduce((acc, [itemId, pId]) => ({ ...acc, [itemId]: pId }), {})\<close>: the object with
  the entries whose value is not the removed participant's id (\<open>removedId\<close> here,
  the handler's parameter \<open>participantId\<close>); a \<open>null\<close> value is kept.
\<close>

definition remove_assignments_to :: "string \<Rightarrow> assignments \<Rightarrow> assignments" where
  "remove_assignments_to removedId m =
     (\<lambda>itemId. case m itemId of
                 None \<Rightarrow> None
               | Some pId \<Rightarrow> if pId \<noteq> Some removedId then Some pId else None)"

definition handleRemoveParticipant :: "string \<Rightarrow> AppState \<Rightarrow> AppState" where
  "handleRemoveParticipant removedId s =
     (case currentBill s of
        None \<Rightarrow> s
      | Some b \<Rightarrow>
          s\<lparr>currentBill := Some (b\<lparr>
               participants := filter (\<lambda>p. p_id p \<noteq> removedId) (participants b),
               itemAssignments := remove_assignments_to removedId (itemAssignments b)\<rparr>)\<rparr>)"

definition unassignedItems :: "BillSession \<Rightarrow> ReceiptItem list" where
  "unassignedItems b =
     filter (\<lambda>item. \<not> js_truthy (itemAssignments b (item_id item))) (extractedItems b)"

definition handleViewSummary :: "AppState \<Rightarrow> AppState" where
  "handleViewSummary s =
     (let s1 = clearMessages s in
      case currentBill s of
        None \<Rightarrow> s1\<lparr>errorMessage := ''No bill data available.''\<rparr>
      | Some b \<Rightarrow>
          if length (participants b) = 0 then
            s1\<lparr>errorMessage := ''Please add participants before viewing summary.''\<rparr>
          else if length (extractedItems b) = 0 then
            s1\<lparr>errorMessage := ''Please add items to the bill.''\<rparr>
          else if length (unassignedItems b) > 0 \<and> length (participants b) > 0 then
            s1\<lparr>errorMessage := ''Please assign all items. ''
                   @ string_of_nat (length (unassignedItems b))
                   @ '' item(s) are unassigned.''\<rparr>
          else s1\<lparr>appStep := VIEW_SUMMARY\<rparr>)"

text \<open>\<open>{ ...currentBill, calculatedShares: finalShares }\<close>\<close>

definition billToSave :: "BillSession \<Rightarrow> ParticipantShare list \<Rightarrow> StoredBillSession" where
  "billToSave b finalShares =
     \<lparr>bill_id = bill_id b, createdAt = createdAt b, description = description b,
      receiptImage = receiptImage b, extractedItems = extractedItems b,
      participants = participants b, itemAssignments = itemAssignments b,
      taxAmount = taxAmount b, serviceFeeAmount = serviceFeeAmount b,
      calculatedShares = Some finalShares\<rparr>"

text \<open>
  The handler works on the component state and on \<open>localStorage\<close>. Were
  \<open>calculateShares\<close> to divide by zero, the model stops with that error.
\<close>

definition handleSaveBill :: "AppState \<times> LocalStorage \<Rightarrow> js_error + AppState \<times> LocalStorage" where
  "handleSaveBill w =
     (let s1 = clearMessages (fst w) in
      case currentBill (fst w) of
        None \<Rightarrow> Inr (s1, snd w)
      | Some b \<Rightarrow>
          (case calculateShares (currentBill (fst w)) of
             Inl e \<Rightarrow> Inl e
           | Inr finalShares \<Rightarrow>
               (let updatedHistory = addBillToStorage (billToSave b finalShares) (snd w)
                in Inr (s1\<lparr>historicalBills := fst updatedHistory,
                            successMessage := ''Bill saved successfully!'',
                            currentBill := None,
                            appStep := UPLOAD_RECEIPT\<rparr>,
                        snd updatedHistory))))"

definition viewBillFromHistory :: "string \<Rightarrow> AppState \<Rightarrow> AppState" where
  "viewBillFromHistory billId s =
     (let s1 = clearMessages s in
      case find (\<lambda>b. bill_id b = billId) (historicalBills s) of
        Some bill \<Rightarrow> s1\<lparr>viewingBillDetails := Some bill, appStep := VIEW_SUMMARY\<rparr>
      | None \<Rightarrow> s1)"

definition handleDeleteBill :: "string \<Rightarrow> AppState \<times> LocalStorage \<Rightarrow> AppState \<times> LocalStorage" where
  "handleDeleteBill billId w =
     (let s1 = clearMessages (fst w);
          updatedHistory = deleteBillFromStorage billId (snd w);
          s2 = s1\<lparr>historicalBills := fst updatedHistory, successMessage := ''Bill deleted.''\<rparr>
      in (case viewingBillDetails (fst w) of
            Some v \<Rightarrow>
              if bill_id v = billId
              then (s2\<lparr>viewingBillDetails := None, appStep := VIEW_HISTORY\<rparr>, snd updatedHistory)
              else (s2, snd updatedHistory)
          | None \<Rightarrow> (s2, snd updatedHistory)))"

text \<open>\<open>confirmed\<close> is the answer of \<open>window.confirm\<close>.\<close>

definition handleClearHistory :: "bool \<Rightarrow> AppState \<times> LocalStorage \<Rightarrow> AppState \<times> LocalStorage" where
  "handleClearHistory confirmed w =
     (let s1 = clearMessages (fst w) in
      if confirmed then
        (let updatedHistory = clearAllBillsFromStorage (snd w)
         in (s1\<lparr>historicalBills := fst updatedHistory,
                 successMessage := ''All bill history cleared.'',
                 appStep := UPLOAD_RECEIPT\<rparr>,
             snd updatedHistory))
      else (s1, snd w))"

text \<open>
  The shares the summary step renders:
  \<open>viewingBillDetails?.calculatedShares || calculateShares()\<close> (an array is truthy,
  also when empty).
\<close>

definition summaryShares :: "AppState \<Rightarrow> js_error + ParticipantShare list" where
  "summaryShares s =
     (case viewingBillDetails s of
        None \<Rightarrow> calculateShares (currentBill s)
      | Some v \<Rightarrow>
          (case calculatedShares v of
             Some shares \<Rightarrow> Inr shares
           | None \<Rightarrow> calculateShares (currentBill s)))"

section \<open>Example bills and states\<close>

text \<open>Concrete inputs, on which the theorems below are instantiated.\<close>

definition item_nasi :: ReceiptItem where
  "item_nasi = \<lparr>item_id = ''i1'', item_name = ''Nasi Goreng'', quantity = Finite 1, price = Finite 20000\<rparr>"
definition item_mie :: ReceiptItem where
  "item_mie = \<lparr>item_id = ''i2'', item_name = ''Mie Ayam'', quantity = Finite 2, price = Finite 30000\<rparr>"
definition ann :: Participant where "ann = \<lparr>p_id = ''A'', p_name = ''Ann''\<rparr>"
definition bob :: Participant where "bob = \<lparr>p_id = ''B'', p_name = ''Bob''\<rparr>"
definition bill_two :: BillSession where
  "bill_two = \<lparr>bill_id = ''bill-1'', createdAt = 0, description = None, receiptImage = None,
     extractedItems = [item_nasi, item_mie],
     participants = [ann, bob],
     itemAssignments = (\<lambda>k. None)(''i1'' := Some (Some ''A''), ''i2'' := Some (Some ''B'')),
     taxAmount = Finite 5000, serviceFeeAmount = Finite 0\<rparr>"

definition item_kopi :: ReceiptItem where
  "item_kopi = \<lparr>item_id = ''i3'', item_name = ''Kopi'', quantity = Finite 1, price = Finite 100\<rparr>"

definition bill_unassigned :: BillSession where
  "bill_unassigned = \<lparr>bill_id = ''bill-2'', createdAt = 0, description = None, receiptImage = None,
     extractedItems = [item_kopi],
     participants = [ann],
     itemAssignments = (\<lambda>k. None),
     taxAmount = Finite 10, serviceFeeAmount = Finite 5\<rparr>"

definition item_free :: ReceiptItem where
  "item_free = \<lparr>item_id = ''i4'', item_name = ''Air Putih'', quantity = Finite 3, price = Finite 0\<rparr>"



definition item_promo :: ReceiptItem where
  "item_promo = \<lparr>item_id = ''i5'', item_name = ''Es Teh'', quantity = Finite 1, price = Finite 10\<rparr>"

definition item_discount :: ReceiptItem where
  "item_discount = \<lparr>item_id = ''i6'', item_name = ''Diskon'', quantity = Finite 1, price = Finite (- 10)\<rparr>"

definition bill_offsetting :: BillSession where
  "bill_offsetting = \<lparr>bill_id = ''bill-4'', createdAt = 0, description = None, receiptImage = None,
     extractedItems = [item_promo, item_discount],
     participants = [ann, bob],
     itemAssignments = (\<lambda>k. None)(''i5'' := Some (Some ''A''), ''i6'' := Some (Some ''B'')),
     taxAmount = Finite 0, serviceFeeAmount = Finite 0\<rparr>"

definition bill_all_free :: BillSession where
  "bill_all_free = \<lparr>bill_id = ''bill-5'', createdAt = 0, description = None, receiptImage = None,
     extractedItems = [item_free],
     participants = [ann, bob],
     itemAssignments = (\<lambda>k. None)(''i4'' := Some (Some ''A'')),
     taxAmount = Finite 0, serviceFeeAmount = Finite 0\<rparr>"

definition bill_refund :: BillSession where
  "bill_refund = \<lparr>bill_id = ''bill-6'', createdAt = 0, description = None, receiptImage = None,
     extractedItems = [item_discount],
     participants = [ann, bob],
     itemAssignments = (\<lambda>k. None)(''i6'' := Some (Some ''A'')),
     taxAmount = Finite 7, serviceFeeAmount = Finite 3\<rparr>"

definition item_sate :: ReceiptItem where
  "item_sate = \<lparr>item_id = ''i7'', item_name = ''Sate'', quantity = Finite 1, price = Finite 40\<rparr>"

definition bill_dangling :: BillSession where
  "bill_dangling = \<lparr>bill_id = ''bill-7'', createdAt = 0, description = None, receiptImage = None,
     extractedItems = [item_kopi, item_sate],
     participants = [ann, bob],
     itemAssignments = (\<lambda>k. None)(''i3'' := Some (Some ''A''), ''i7'' := Some (Some ''Z'')),
     taxAmount = Finite 14, serviceFeeAmount = Finite 0\<rparr>"

definition editing :: "BillSession \<Rightarrow> AppState" where
  "editing b = \<lparr>currentBill = Some b, appStep = EDIT_BILL_DETAILS, isLoading = False,
     errorMessage = [], successMessage = ''Receipt analyzed successfully!'',
     historicalBills = [], participantNameInput = [], viewingBillDetails = None\<rparr>"

definition bill_half_assigned :: BillSession where
  "bill_half_assigned = \<lparr>bill_id = ''bill-8'', createdAt = 0, description = None, receiptImage = None,
     extractedItems = [item_nasi, item_mie],
     participants = [ann, bob],
     itemAssignments = (\<lambda>k. None)(''i1'' := Some (Some ''A''), ''i2'' := Some None),
     taxAmount = Finite 5000, serviceFeeAmount = Finite 0\<rparr>"

definition stored_unassigned :: StoredBillSession where
  "stored_unassigned = billToSave bill_unassigned
     [\<lparr>participantId = ''A'', participantName = ''Ann'', items = [],
       subtotal = Finite 0, taxShare = Finite 0, serviceFeeShare = Finite 0, totalOwed = Finite 0\<rparr>]"

definition storage_one :: LocalStorage where
  "storage_one = \<lparr>stored_bills = Parsed [stored_unassigned], getItem_throws = False, setItem_throws = False\<rparr>"

definition shares_two :: "ParticipantShare list" where
  "shares_two =
     [\<lparr>participantId = ''A'', participantName = ''Ann'', items = [item_nasi],
       subtotal = Finite 20000, taxShare = Finite 2000, serviceFeeShare = Finite 0, totalOwed = Finite 22000\<rparr>,
      \<lparr>participantId = ''B'', participantName = ''Bob'', items = [item_mie],
       subtotal = Finite 30000, taxShare = Finite 3000, serviceFeeShare = Finite 0, totalOwed = Finite 33000\<rparr>]"


definition item_gum :: ReceiptItem where
  "item_gum = \<lparr>item_id = ''i8'', item_name = ''Permen'', quantity = Finite 1, price = fl (1 / 10)\<rparr>"

definition item_mint :: ReceiptItem where
  "item_mint = \<lparr>item_id = ''i9'', item_name = ''Mint'', quantity = Finite 1, price = fl (1 / 10)\<rparr>"

definition item_tea :: ReceiptItem where
  "item_tea = \<lparr>item_id = ''i10'', item_name = ''Teh'', quantity = Finite 1, price = fl (11 / 10)\<rparr>"

definition bill_cents :: BillSession where
  "bill_cents = \<lparr>bill_id = ''bill-8'', createdAt = 8, description = None, receiptImage = None,
     extractedItems = [item_gum, item_mint, item_tea],
     participants = [ann, bob],
     itemAssignments = (\<lambda>k. None)(''i8'' := Some (Some ''A''), ''i9'' := Some (Some ''B''),
                                   ''i10'' := Some (Some ''A'')),
     taxAmount = Finite 0, serviceFeeAmount = Finite 0\<rparr>"

section \<open>Properties of the rounding\<close>

subsection \<open>Powers of two and the exponent\<close>

lemma p2_add: "(2::real) powi (a + b) = 2 powi a * 2 powi b"
  by (simp add: power_int_add)

lemma p2_diff: "(2::real) powi (a - b) = 2 powi a / 2 powi b"
  by (simp add: power_int_diff)

lemma p2_pos [simp]: "0 < (2::real) powi a"
  by (simp add: zero_less_power_int)

lemma p2_mono: "a \<le> b \<Longrightarrow> (2::real) powi a \<le> 2 powi b"
  by (rule power_int_increasing) simp_all

lemma p2_strict_mono: "a < b \<Longrightarrow> (2::real) powi a < 2 powi b"
  by (rule power_int_strict_increasing) simp_all

lemma p2_nat: "0 \<le> a \<Longrightarrow> (2::real) powi a = 2 ^ nat a"
  by (simp add: power_int_def)

lemma p2_Suc: "(2::real) powi (a + 1) = 2 * 2 powi a"
  by (simp add: p2_add)

lemma exp_hi_bounds:
  "1 \<le> x \<Longrightarrow> 0 \<le> exp_hi x \<and> 2 powi exp_hi x \<le> x \<and> x < 2 powi (exp_hi x + 1)"
proof (induction x rule: exp_hi.induct)
  case (1 x)
  show ?case
  proof (cases "x < 2")
    case True
    with "1.prems" show ?thesis by (simp add: exp_hi.simps [of x])
  next
    case False
    then have "1 \<le> x / 2" by simp
    with "1.IH" [OF False] have ih: "0 \<le> exp_hi (x / 2)" "2 powi exp_hi (x / 2) \<le> x / 2"
      "x / 2 < 2 powi (exp_hi (x / 2) + 1)"
      by simp_all
    from False have eq: "exp_hi x = exp_hi (x / 2) + 1" by (simp add: exp_hi.simps [of x])
    have "(2::real) powi (exp_hi (x / 2) + 1) = 2 * 2 powi exp_hi (x / 2)"
      and "(2::real) powi (exp_hi (x / 2) + 1 + 1) = 4 * 2 powi exp_hi (x / 2)"
      by (simp_all add: p2_add)
    with ih show ?thesis
      unfolding eq by auto
  qed
qed

lemma exp_lo_inv:
  "0 < x \<Longrightarrow> x < 2 \<Longrightarrow> k \<le> 1022 \<Longrightarrow>
     - 1022 \<le> exp_lo k x \<and> exp_lo k x \<le> - int k \<and>
     x * 2 powi (- int k - exp_lo k x) < 2 \<and>
     (1 \<le> x * 2 powi (- int k - exp_lo k x) \<or> exp_lo k x = - 1022)"
proof (induction k x rule: exp_lo.induct)
  case (1 k x)
  show ?case
  proof (cases "1 \<le> x \<or> 1022 \<le> k")
    case True
    then have eq: "exp_lo k x = - int k" by (simp add: exp_lo.simps [of k x])
    from True "1.prems" show ?thesis by (auto simp add: eq)
  next
    case False
    then have eq: "exp_lo k x = exp_lo (Suc k) (2 * x)" by (simp add: exp_lo.simps [of k x])
    from False "1.prems" have "0 < 2 * x" "2 * x < 2" "Suc k \<le> 1022" by simp_all
    from "1.IH" [OF False this]
    have ih: "- 1022 \<le> exp_lo (Suc k) (2 * x)" "exp_lo (Suc k) (2 * x) \<le> - int (Suc k)"
      "2 * x * 2 powi (- int (Suc k) - exp_lo (Suc k) (2 * x)) < 2"
      "1 \<le> 2 * x * 2 powi (- int (Suc k) - exp_lo (Suc k) (2 * x)) \<or> exp_lo (Suc k) (2 * x) = - 1022"
      by simp_all
    define e where "e = exp_lo (Suc k) (2 * x)"
    have "- int k - e = (- int (Suc k) - e) + 1" by simp
    then have "(2::real) powi (- int k - e) = 2 powi (- int (Suc k) - e) * 2"
      by (simp only: p2_add) simp
    then have "x * 2 powi (- int k - e) = 2 * x * 2 powi (- int (Suc k) - e)"
      by simp
    with ih show ?thesis
      unfolding eq e_def [symmetric] by auto
  qed
qed

lemma exp_lo_bounds:
  assumes "0 < x" and "x < 1"
  shows "- 1022 \<le> exp_lo 0 x" and "exp_lo 0 x \<le> 0" and "x < 2 powi (exp_lo 0 x + 1)"
    and "2 powi (- 1022) \<le> x \<Longrightarrow> 2 powi exp_lo 0 x \<le> x"
proof -
  from assms have "x < 2" by simp
  from exp_lo_inv [OF assms(1) this, of 0]
  have inv: "- 1022 \<le> exp_lo 0 x" "exp_lo 0 x \<le> 0" "x * 2 powi (- exp_lo 0 x) < 2"
    "1 \<le> x * 2 powi (- exp_lo 0 x) \<or> exp_lo 0 x = - 1022"
    by simp_all
  show "- 1022 \<le> exp_lo 0 x" and "exp_lo 0 x \<le> 0" by fact+
  have inv_eq: "x * 2 powi (- exp_lo 0 x) = x / 2 powi exp_lo 0 x"
    by (simp add: power_int_minus divide_inverse)
  have "(2::real) powi (exp_lo 0 x + 1) = 2 powi exp_lo 0 x * 2"
    by (simp only: p2_add) simp
  with inv(3) show "x < 2 powi (exp_lo 0 x + 1)"
    by (simp add: inv_eq pos_divide_less_eq algebra_simps)
  show "2 powi exp_lo 0 x \<le> x" if "2 powi (- 1022) \<le> x"
  proof -
    from inv(4) show ?thesis
    proof
      assume "1 \<le> x * 2 powi (- exp_lo 0 x)"
      then show ?thesis by (simp add: inv_eq pos_le_divide_eq)
    next
      assume "exp_lo 0 x = - 1022"
      with that show ?thesis by simp
    qed
  qed
qed

lemma exponent_bounds:
  assumes "0 < x"
  shows "- 1022 \<le> exponent x" and "x < 2 powi (exponent x + 1)"
    and "2 powi (- 1022) \<le> x \<Longrightarrow> 2 powi exponent x \<le> x"
proof -
  show "- 1022 \<le> exponent x"
    using exp_hi_bounds [of x] exp_lo_bounds(1) [OF assms] by (cases "1 \<le> x") (simp_all add: exponent_def)
  show "x < 2 powi (exponent x + 1)"
    using exp_hi_bounds [of x] exp_lo_bounds(3) [OF assms] by (cases "1 \<le> x") (simp_all add: exponent_def)
  show "2 powi exponent x \<le> x" if "2 powi (- 1022) \<le> x"
    using exp_hi_bounds [of x] exp_lo_bounds(4) [OF assms _ that] by (cases "1 \<le> x") (simp_all add: exponent_def)
qed

lemma exponent_unique:
  assumes "- 1022 \<le> e" and "2 powi e \<le> x" and "x < 2 powi (e + 1)"
  shows "exponent x = e"
proof -
  from assms(2) have pos: "0 < x" using p2_pos [of e] by linarith
  from assms(1) have "(2::real) powi (- 1022) \<le> 2 powi e" by (rule p2_mono)
  with assms(2) have "2 powi (- 1022) \<le> x" by linarith
  from exponent_bounds(2) [OF pos] exponent_bounds(3) [OF pos this]
  have b: "2 powi exponent x \<le> x" "x < 2 powi (exponent x + 1)" by simp_all
  have "\<not> exponent x < e"
  proof
    assume "exponent x < e"
    then have "(2::real) powi (exponent x + 1) \<le> 2 powi e" by (intro p2_mono) simp
    with b(2) assms(2) show False by linarith
  qed
  moreover have "\<not> e < exponent x"
  proof
    assume "e < exponent x"
    then have "(2::real) powi (e + 1) \<le> 2 powi exponent x" by (intro p2_mono) simp
    with b(1) assms(3) show False by linarith
  qed
  ultimately show ?thesis by simp
qed

lemma exponent_subnormal:
  assumes "0 < x" and "x < 2 powi (- 1022)"
  shows "exponent x = - 1022"
proof -
  have "\<not> - 1022 < exponent x"
  proof
    assume less: "- 1022 < exponent x"
    from assms(2) have "x < 1" using p2_strict_mono [of "- 1022" 0] by simp
    then have ex: "exponent x = exp_lo 0 x" by (simp add: exponent_def)
    from assms \<open>x < 1\<close> have "x < 2" by simp
    from exp_lo_inv [OF assms(1) this, of 0] less ex
    have "1 \<le> x * 2 powi (- exp_lo 0 x)" by simp
    then have "2 powi exp_lo 0 x \<le> x"
      by (simp add: power_int_minus divide_inverse [symmetric] pos_le_divide_eq)
    moreover from less ex have "(2::real) powi (- 1022) \<le> 2 powi exp_lo 0 x" by (intro p2_mono) simp
    ultimately show False using assms(2) by linarith
  qed
  with exponent_bounds(1) [OF assms(1)] show ?thesis by simp
qed


subsection \<open>Rounding to the nearest integer\<close>

lemma round_even_of_int [simp]: "round_even (of_int n) = n"
  by (simp add: round_even_def)

lemma round_even_error: "\<bar>of_int (round_even y) - y\<bar> \<le> 1 / 2"
  unfolding round_even_def Let_def by (auto; linarith)

lemma round_even_ge: "of_int n \<le> y \<Longrightarrow> n \<le> round_even y"
proof -
  assume "of_int n \<le> y"
  then have "n \<le> \<lfloor>y\<rfloor>" by (simp add: le_floor_iff)
  then show ?thesis unfolding round_even_def Let_def by auto
qed

lemma round_even_le: "y \<le> of_int n \<Longrightarrow> round_even y \<le> n"
proof -
  assume le: "y \<le> of_int n"
  show ?thesis
  proof (cases "y = of_int n")
    case True
    then show ?thesis by simp
  next
    case False
    with le have "y < of_int n" by simp
    then have "\<lfloor>y\<rfloor> < n" by (simp add: floor_less_iff)
    then show ?thesis unfolding round_even_def Let_def by auto
  qed
qed

subsection \<open>Rounding a representable number\<close>

lemma fl_pos_representable:
  assumes "0 < m" and "m < 2 ^ 53" and "- 1074 \<le> k" and x: "x = of_int m * 2 powi k" and "x < 2 ^ 1024"
  shows "fl_pos x = Finite x"
proof -
  from assms(1) x have pos: "0 < x" by simp
  define e where "e = exponent x"
  have kge: "e - 52 \<le> k"
  proof (cases "2 powi (- 1022) \<le> x")
    case True
    from exponent_bounds(3) [OF pos True] have "2 powi e \<le> x" by (simp add: e_def)
    also have "x < 2 ^ 53 * 2 powi k"
      using assms(2) x by simp
    also have "\<dots> = 2 powi (53 + k)" by (simp only: p2_add) simp
    finally have "(2::real) powi e < 2 powi (53 + k)" .
    then have "e < 53 + k"
      using p2_mono [of "53 + k" e] by (cases "e < 53 + k") auto
    then show ?thesis by simp
  next
    case False
    then have "x < 2 powi (- 1022)" by simp
    from exponent_subnormal [OF pos this] assms(3) show ?thesis by (simp add: e_def)
  qed
  define j where "j = nat (k - (e - 52))"
  from kge have k: "k = (e - 52) + int j" by (simp add: j_def)
  have "2 powi k = 2 powi (e - 52) * (2::real) ^ j"
    by (subst k, simp only: p2_add) (simp add: power_int_def)
  with x have q: "x / 2 powi (e - 52) = of_int (m * 2 ^ j)"
    by simp
  have "round_even (x / 2 powi (e - 52)) = m * 2 ^ j"
    by (simp only: q round_even_of_int)
  then have "of_int (round_even (x / 2 powi (e - 52))) * 2 powi (e - 52) = x"
    using \<open>2 powi k = 2 powi (e - 52) * (2::real) ^ j\<close> x by simp
  with assms(5) show ?thesis
    by (simp add: fl_pos_def ulp_def e_def Let_def)
qed

lemma fl_pos_result:
  assumes "0 < x" and "fl_pos x = Finite r"
  shows "0 \<le> r" and "r < 2 ^ 1024" and "r = 0 \<or> (2 powi (- 1074) \<le> r \<and> fl_pos r = Finite r)"
proof -
  define e where "e = exponent x"
  define u :: real where "u = 2 powi (e - 52)"
  define M where "M = round_even (x / u)"
  have upos: "0 < u" by (simp add: u_def)
  from assms(2) have lt: "x < 2 ^ 1024"
    by (auto simp add: fl_pos_def split: if_splits)
  with assms(2) have r: "r = of_int M * u" and fin: "r < 2 ^ 1024"
    by (auto simp add: fl_pos_def ulp_def e_def u_def M_def Let_def split: if_splits)
  show "r < 2 ^ 1024" by fact
  from assms(1) upos have "of_int 0 \<le> x / u" by simp
  then have M0: "0 \<le> M" unfolding M_def by (rule round_even_ge)
  with upos r show "0 \<le> r" by simp
  from exponent_bounds(2) [OF assms(1)] have "x < 2 powi (e + 1)" by (simp add: e_def)
  also have "\<dots> = 2 ^ 53 * u"
  proof -
    have "e + 1 = 53 + (e - 52)" by simp
    then show ?thesis unfolding u_def by (simp only: p2_add) simp
  qed
  finally have "x / u < 2 ^ 53" using upos by (simp add: pos_divide_less_eq)
  then have "x / u \<le> of_int (2 ^ 53)" by simp
  then have M53: "M \<le> 2 ^ 53" unfolding M_def by (rule round_even_le)
  from exponent_bounds(1) [OF assms(1)] have ege: "- 1074 \<le> e - 52" by (simp add: e_def)
  show "r = 0 \<or> (2 powi (- 1074) \<le> r \<and> fl_pos r = Finite r)"
  proof (cases "M = 0")
    case True
    with r show ?thesis by simp
  next
    case False
    with M0 have Mpos: "0 < M" by simp
    then have "1 \<le> (of_int M :: real)" by simp
    then have "u \<le> r" using upos r by simp
    moreover from ege have "(2::real) powi (- 1074) \<le> u" unfolding u_def by (rule p2_mono)
    ultimately have low: "2 powi (- 1074) \<le> r" by linarith
    have "fl_pos r = Finite r"
    proof (cases "M < 2 ^ 53")
      case True
      from Mpos True ege r [unfolded u_def] fin show ?thesis by (rule fl_pos_representable)
    next
      case False
      with M53 have M: "M = 2 ^ 53" by simp
      have "(2::real) powi (e - 51) = 2 * u"
        unfolding u_def using p2_add [of 1 "e - 52"] by simp
      with r M have r': "r = of_int (2 ^ 52) * 2 powi (e - 51)" by simp
      from ege have "- 1074 \<le> e - 51" by simp
      from _ _ this r' fin show ?thesis by (rule fl_pos_representable) simp_all
    qed
    with low show ?thesis by simp
  qed
qed

lemma fl_pos_relative_error:
  assumes "2 powi (- 1022) \<le> x" and "x < 2 ^ 1023"
  shows "\<exists>r. fl_pos x = Finite r \<and> \<bar>r - x\<bar> \<le> x / 2 ^ 53"
proof -
  from assms(1) have pos: "0 < x" using p2_pos [of "- 1022"] by linarith
  define e where "e = exponent x"
  define u :: real where "u = 2 powi (e - 52)"
  define M where "M = round_even (x / u)"
  have upos: "0 < u" by (simp add: u_def)
  from exponent_bounds(3) [OF pos assms(1)] have "2 powi e \<le> x" by (simp add: e_def)
  moreover have "(2::real) powi e = 2 ^ 52 * u"
    unfolding u_def using p2_add [of 52 "e - 52"] by simp
  ultimately have ux: "u \<le> x / 2 ^ 52" by (simp add: pos_le_divide_eq mult.commute)
  have "of_int M * u - x = (of_int M - x / u) * u"
    using upos by (simp add: field_simps)
  then have "\<bar>of_int M * u - x\<bar> = \<bar>of_int M - x / u\<bar> * u"
    using upos by (simp add: abs_mult)
  also have "\<dots> \<le> (1 / 2) * u"
    using round_even_error [of "x / u"] upos unfolding M_def by (intro mult_right_mono) simp_all
  also have "\<dots> \<le> x / 2 ^ 53" using ux by simp
  finally have err: "\<bar>of_int M * u - x\<bar> \<le> x / 2 ^ 53" .
  then have "of_int M * u \<le> x + x / 2 ^ 53" by linarith
  also have "\<dots> < 2 ^ 1024" using assms(2) pos by simp
  finally have "of_int M * u < 2 ^ 1024" .
  moreover from assms(2) have "x < 2 ^ 1024" by simp
  ultimately have "fl_pos x = Finite (of_int M * u)"
    by (simp add: fl_pos_def ulp_def e_def u_def M_def Let_def)
  with err show ?thesis by blast
qed

subsection \<open>Rounding any real\<close>

lemma fl_0 [simp]: "fl 0 = Finite 0"
  by (simp add: fl_def)

lemma js_neg_js_neg [simp]: "js_neg (js_neg a) = a"
  by (cases a) simp_all

lemma fl_minus: "fl (- x) = js_neg (fl x)"
  by (simp add: fl_def)

lemma fl_of_int:
  assumes "\<bar>n\<bar> \<le> 2 ^ 53"
  shows "fl (of_int n) = Finite (of_int n)"
proof -
  have pos: "fl_pos (of_int m) = Finite (of_int m)" if "0 < m" "m \<le> 2 ^ 53" for m :: int
  proof (cases "m < 2 ^ 53")
    case True
    from that(2) have "(of_int m :: real) \<le> of_int (2 ^ 53)" by (simp only: of_int_le_iff)
    then have "(of_int m :: real) < 2 ^ 1024" by simp
    with that(1) True show ?thesis
      by (intro fl_pos_representable [where m = m and k = 0]) simp_all
  next
    case False
    with that have m: "m = 2 ^ 53" by simp
    show ?thesis
      by (rule fl_pos_representable [where m = "2 ^ 52" and k = 1]) (simp_all add: m)
  qed
  consider "n = 0" | "0 < n" | "n < 0" by linarith
  then show ?thesis
  proof cases
    case 1
    then show ?thesis by simp
  next
    case 2
    with assms pos [of n] show ?thesis by (simp add: fl_def)
  next
    case 3
    with assms pos [of "- n"] show ?thesis by (simp add: fl_def)
  qed
qed

lemma fl_numeral [simp]:
  "(numeral n :: int) \<le> 2 ^ 53 \<Longrightarrow> fl (numeral n) = Finite (numeral n)"
  using fl_of_int [of "numeral n"] by simp

lemma fl_neg_numeral [simp]:
  "(numeral n :: int) \<le> 2 ^ 53 \<Longrightarrow> fl (- numeral n) = Finite (- numeral n)"
  using fl_of_int [of "- numeral n"] by simp

lemma fl_1 [simp]: "fl 1 = Finite 1"
  using fl_of_int [of 1] by simp

lemma fl_result:
  assumes "fl x = Finite r"
  shows "is_double r" and "r \<noteq> 0 \<Longrightarrow> 2 powi (- 1074) \<le> \<bar>r\<bar>"
    and "0 \<le> x \<Longrightarrow> 0 \<le> r" and "x \<le> 0 \<Longrightarrow> r \<le> 0"
proof -
  consider "x = 0" | "0 < x" | "x < 0" by linarith
  then have "is_double r \<and> (r \<noteq> 0 \<longrightarrow> 2 powi (- 1074) \<le> \<bar>r\<bar>) \<and> (0 \<le> x \<longrightarrow> 0 \<le> r) \<and> (x \<le> 0 \<longrightarrow> r \<le> 0)"
  proof cases
    case 1
    with assms show ?thesis by (simp add: is_double_def)
  next
    case 2
    with assms have p: "fl_pos x = Finite r" by (simp add: fl_def)
    from fl_pos_result [OF 2 p] 2 show ?thesis
      by (auto simp add: is_double_def fl_def)
  next
    case 3
    with assms have "js_neg (fl_pos (- x)) = Finite r" by (simp add: fl_def)
    then have p: "fl_pos (- x) = Finite (- r)" by (cases "fl_pos (- x)") simp_all
    from 3 have "0 < - x" by simp
    from fl_pos_result [OF this p] 3 show ?thesis
      by (auto simp add: is_double_def fl_def)
  qed
  then show "is_double r" and "r \<noteq> 0 \<Longrightarrow> 2 powi (- 1074) \<le> \<bar>r\<bar>"
    and "0 \<le> x \<Longrightarrow> 0 \<le> r" and "x \<le> 0 \<Longrightarrow> r \<le> 0"
    by simp_all
qed

lemma is_double_lower:
  assumes "is_double r" and "r \<noteq> 0"
  shows "2 powi (- 1074) \<le> \<bar>r\<bar>"
  using assms fl_result(2) [of r r] by (simp add: is_double_def)

lemma fl_pos_nonzero:
  assumes "2 powi (- 1074) \<le> x"
  shows "fl_pos x \<noteq> Finite 0"
proof
  assume z: "fl_pos x = Finite 0"
  from assms have pos: "0 < x" using p2_pos [of "- 1074"] by linarith
  define e where "e = exponent x"
  define u :: real where "u = 2 powi (e - 52)"
  have upos: "0 < u" by (simp add: u_def)
  have "u \<le> x"
  proof (cases "2 powi (- 1022) \<le> x")
    case True
    from exponent_bounds(3) [OF pos True] have "2 powi e \<le> x" by (simp add: e_def)
    moreover have "u \<le> 2 powi e" unfolding u_def by (rule p2_mono) simp
    ultimately show ?thesis by linarith
  next
    case False
    then have "x < 2 powi (- 1022)" by simp
    from exponent_subnormal [OF pos this] assms show ?thesis by (simp add: u_def e_def)
  qed
  then have "of_int 1 \<le> x / u" using upos by (simp add: pos_le_divide_eq)
  then have "1 \<le> round_even (x / u)" by (rule round_even_ge)
  then have "0 < of_int (round_even (x / u)) * u" using upos by simp
  with z show False
    by (auto simp add: fl_pos_def ulp_def e_def u_def Let_def split: if_splits)
qed

lemma fl_nonzero:
  assumes "2 powi (- 1074) \<le> \<bar>x\<bar>"
  shows "fl x \<noteq> Finite 0"
proof (cases "0 < x")
  case True
  with assms fl_pos_nonzero [of x] show ?thesis by (simp add: fl_def)
next
  case False
  with assms have neg: "x < 0" using p2_pos [of "- 1074"] by (cases "x = 0") auto
  with assms fl_pos_nonzero [of "- x"] have "fl_pos (- x) \<noteq> Finite 0" by simp
  with neg show ?thesis by (cases "fl_pos (- x)") (simp_all add: fl_def)
qed

lemma fl_relative_error:
  assumes "2 powi (- 1022) \<le> \<bar>x\<bar>" and "\<bar>x\<bar> < 2 ^ 1023"
  shows "\<exists>r. fl x = Finite r \<and> \<bar>r - x\<bar> \<le> \<bar>x\<bar> / 2 ^ 53"
proof (cases "0 < x")
  case True
  with assms fl_pos_relative_error [of x] show ?thesis by (simp add: fl_def)
next
  case False
  with assms have neg: "x < 0" using p2_pos [of "- 1022"] by (cases "x = 0") auto
  with assms fl_pos_relative_error [of "- x"]
  obtain r where "fl_pos (- x) = Finite r" and "\<bar>r - (- x)\<bar> \<le> - x / 2 ^ 53" by auto
  with neg have "fl x = Finite (- r)" and "\<bar>- r - x\<bar> \<le> \<bar>x\<bar> / 2 ^ 53"
    by (simp_all add: fl_def abs_minus_commute)
  then show ?thesis by blast
qed

subsection \<open>The operations\<close>

lemma js_valid_fl [simp]: "js_valid (fl x)"
  using fl_result(1) [of x] by (cases "fl x") simp_all

lemma js_valid_add [simp]: "js_valid (js_add a b)"
  by (cases a; cases b) simp_all

lemma js_add_zero:
  "js_valid a \<Longrightarrow> js_add a (Finite 0) = a"
  by (cases a) (simp_all add: is_double_def)

lemma js_sum_snoc: "js_sum (xs @ [x]) = js_add (js_sum xs) x"
  by (simp add: js_sum_def)

lemma js_valid_sum: "js_valid (js_sum xs)"
proof (cases xs rule: rev_cases)
  case Nil
  then show ?thesis by (simp add: js_sum_def is_double_def)
next
  case (snoc ys y)
  then show ?thesis by (simp add: js_sum_snoc)
qed

lemma js_add_whole:
  assumes "is_whole a" and "is_whole b" and "\<bar>num_val a + num_val b\<bar> \<le> 2 ^ 53"
  shows "js_add a b = Finite (num_val a + num_val b)" and "is_whole (js_add a b)"
proof -
  from assms(1,2) obtain x y where a: "a = Finite x" and b: "b = Finite y"
    by (cases a; cases b) simp_all
  with assms(1,2) have x: "x = of_int \<lfloor>x\<rfloor>" and y: "y = of_int \<lfloor>y\<rfloor>" by simp_all
  then have s: "x + y = of_int (\<lfloor>x\<rfloor> + \<lfloor>y\<rfloor>)" by simp
  from assms(3) a b have "\<bar>(of_int (\<lfloor>x\<rfloor> + \<lfloor>y\<rfloor>) :: real)\<bar> \<le> of_int (2 ^ 53)"
    by (simp only: s [symmetric]) simp
  then have "\<bar>\<lfloor>x\<rfloor> + \<lfloor>y\<rfloor>\<bar> \<le> 2 ^ 53"
    by (simp only: of_int_abs [symmetric] of_int_le_iff)
  from fl_of_int [OF this] have "fl (x + y) = Finite (x + y)" by (simp only: s)
  with a b show "js_add a b = Finite (num_val a + num_val b)" by simp
  with s a b show "is_whole (js_add a b)" by simp
qed

lemma js_add_nonneg_zero:
  assumes "is_double a" and "is_double b" and "0 \<le> a" and "0 \<le> b"
    and "js_add (Finite a) (Finite b) = Finite 0"
  shows "a = 0" and "b = 0"
proof -
  have "a + b = 0"
  proof (rule ccontr)
    assume nz: "a + b \<noteq> 0"
    with assms(3,4) have "a \<noteq> 0 \<or> b \<noteq> 0" by auto
    with assms(1,2) is_double_lower [of a] is_double_lower [of b] assms(3,4)
    have "2 powi (- 1074) \<le> \<bar>a + b\<bar>" by auto
    from fl_nonzero [OF this] assms(5) show False by simp
  qed
  with assms(3,4) show "a = 0" and "b = 0" by simp_all
qed

section \<open>Properties of the allocation engine\<close>

subsection \<open>The item loop\<close>

lemma forEach_map:
  "(\<And>x. x \<in> set xs \<Longrightarrow> f x = Inr (g x)) \<Longrightarrow> forEach f xs = Inr (map g xs)"
  by (induction xs) auto

lemma push_to_share_length [simp]: "length (push_to_share it pid ss) = length ss"
  by (induction ss) auto

lemma push_to_share_ids [simp]:
  "map participantId (push_to_share it pid ss) = map participantId ss"
  by (induction ss) auto

lemma push_to_share_names [simp]:
  "map participantName (push_to_share it pid ss) = map participantName ss"
  by (induction ss) auto

lemma push_to_share_fees [simp]:
  "map taxShare (push_to_share it pid ss) = map taxShare ss"
  "map serviceFeeShare (push_to_share it pid ss) = map serviceFeeShare ss"
  by (induction ss) auto

lemma push_to_share_absent:
  "pid \<notin> set (map participantId ss) \<Longrightarrow> push_to_share it pid ss = ss"
  by (induction ss) auto

lemma process_item_snd [simp]: "snd (process_item b st it) = js_add (snd st) (price it)"
  by (simp add: process_item_def Let_def split: option.splits)

lemma process_item_ids [simp]:
  "map participantId (fst (process_item b st it)) = map participantId (fst st)"
  by (simp add: process_item_def Let_def split: option.splits)

lemma process_item_names [simp]:
  "map participantName (fst (process_item b st it)) = map participantName (fst st)"
  by (simp add: process_item_def Let_def split: option.splits)

lemma process_item_fees [simp]:
  "map taxShare (fst (process_item b st it)) = map taxShare (fst st)"
  "map serviceFeeShare (fst (process_item b st it)) = map serviceFeeShare (fst st)"
  by (simp_all add: process_item_def Let_def split: option.splits)

lemma foldl_process_snd:
  "snd (foldl (process_item b) st xs) = foldl js_add (snd st) (map price xs)"
  by (induction xs arbitrary: st) auto

lemma foldl_process_ids:
  "map participantId (fst (foldl (process_item b) st xs)) = map participantId (fst st)"
  by (induction xs arbitrary: st) auto

lemma foldl_process_names:
  "map participantName (fst (foldl (process_item b) st xs)) = map participantName (fst st)"
  by (induction xs arbitrary: st) auto

lemma foldl_process_fees:
  "map taxShare (fst (foldl (process_item b) st xs)) = map taxShare (fst st)"
  "map serviceFeeShare (fst (foldl (process_item b) st xs)) = map serviceFeeShare (fst st)"
  by (induction xs arbitrary: st) auto

lemma process_items_total: "snd (process_items b) = js_sum (map price (extractedItems b))"
  by (simp add: process_items_def foldl_process_snd js_sum_def)

lemma process_items_ids: "map participantId (fst (process_items b)) = map p_id (participants b)"
  by (simp add: process_items_def foldl_process_ids initial_share_def o_def)

lemma process_items_names: "map participantName (fst (process_items b)) = map p_name (participants b)"
  by (simp add: process_items_def foldl_process_names initial_share_def o_def)

lemma process_items_fees:
  "map taxShare (fst (process_items b)) = map (\<lambda>p. Finite 0) (participants b)"
  "map serviceFeeShare (fst (process_items b)) = map (\<lambda>p. Finite 0) (participants b)"
  by (simp_all add: process_items_def foldl_process_fees initial_share_def o_def)

subsection \<open>What a share holds\<close>

lemma push_to_share_inv:
  assumes "\<forall>s \<in> set ss. subtotal s = js_sum (map price (items s))
              \<and> (\<forall>i \<in> set (items s). itemAssignments b (item_id i) = Some (Some (participantId s)))"
    and "itemAssignments b (item_id it) = Some (Some pid)"
  shows "\<forall>s \<in> set (push_to_share it pid ss). subtotal s = js_sum (map price (items s))
              \<and> (\<forall>i \<in> set (items s). itemAssignments b (item_id i) = Some (Some (participantId s)))"
  using assms by (induction ss) (auto simp add: js_sum_snoc)

lemma process_item_inv:
  assumes "\<forall>s \<in> set (fst st). subtotal s = js_sum (map price (items s))
              \<and> (\<forall>i \<in> set (items s). itemAssignments b (item_id i) = Some (Some (participantId s)))"
  shows "\<forall>s \<in> set (fst (process_item b st it)). subtotal s = js_sum (map price (items s))
              \<and> (\<forall>i \<in> set (items s). itemAssignments b (item_id i) = Some (Some (participantId s)))"
proof (cases "itemAssignments b (item_id it)")
  case None
  with assms show ?thesis by (simp add: process_item_def)
next
  case (Some a)
  show ?thesis
  proof (cases a)
    case None
    with Some assms show ?thesis by (simp add: process_item_def)
  next
    case (Some pid)
    with \<open>itemAssignments b (item_id it) = Some a\<close> have asg: "itemAssignments b (item_id it) = Some (Some pid)"
      by simp
    show ?thesis
    proof (cases "pid = []")
      case True
      with asg assms show ?thesis by (simp add: process_item_def)
    next
      case False
      with asg have "fst (process_item b st it) = push_to_share it pid (fst st)"
        by (simp add: process_item_def)
      with push_to_share_inv [OF assms asg] show ?thesis by simp
    qed
  qed
qed

lemma foldl_process_inv:
  "\<forall>s \<in> set (fst st). subtotal s = js_sum (map price (items s))
              \<and> (\<forall>i \<in> set (items s). itemAssignments b (item_id i) = Some (Some (participantId s)))
   \<Longrightarrow> \<forall>s \<in> set (fst (foldl (process_item b) st xs)). subtotal s = js_sum (map price (items s))
              \<and> (\<forall>i \<in> set (items s). itemAssignments b (item_id i) = Some (Some (participantId s)))"
proof (induction xs arbitrary: st)
  case Nil
  then show ?case by simp
next
  case (Cons x xs)
  from process_item_inv [OF Cons.prems] have "\<forall>s \<in> set (fst (process_item b st x)). subtotal s = js_sum (map price (items s))
              \<and> (\<forall>i \<in> set (items s). itemAssignments b (item_id i) = Some (Some (participantId s)))" .
  from Cons.IH [OF this] show ?case by simp
qed

lemma process_items_inv:
  "s \<in> set (fst (process_items b)) \<Longrightarrow>
     subtotal s = js_sum (map price (items s))
     \<and> (\<forall>i \<in> set (items s). itemAssignments b (item_id i) = Some (Some (participantId s)))"
proof -
  have "\<forall>s \<in> set (fst (map initial_share (participants b), Finite 0)). subtotal s = js_sum (map price (items s))
              \<and> (\<forall>i \<in> set (items s). itemAssignments b (item_id i) = Some (Some (participantId s)))"
    by (simp add: initial_share_def js_sum_def)
  from foldl_process_inv [OF this] show "s \<in> set (fst (process_items b)) \<Longrightarrow> ?thesis"
    by (simp add: process_items_def)
qed

lemma process_items_share_id:
  "s \<in> set (fst (process_items b)) \<Longrightarrow> participantId s \<in> set (map p_id (participants b))"
proof -
  assume "s \<in> set (fst (process_items b))"
  then have "participantId s \<in> set (map participantId (fst (process_items b)))" by simp
  then show ?thesis by (simp only: process_items_ids)
qed

lemma process_items_share_fees:
  assumes "s \<in> set (fst (process_items b))"
  shows "taxShare s = Finite 0" and "serviceFeeShare s = Finite 0"
proof -
  from assms have "taxShare s \<in> set (map taxShare (fst (process_items b)))" by simp
  then show "taxShare s = Finite 0" by (auto simp add: process_items_fees)
  from assms have "serviceFeeShare s \<in> set (map serviceFeeShare (fst (process_items b)))" by simp
  then show "serviceFeeShare s = Finite 0" by (auto simp add: process_items_fees)
qed

lemma process_items_share_valid:
  assumes "s \<in> set (fst (process_items b))"
  shows "js_valid (subtotal s)"
  using process_items_inv [OF assms] by (simp add: js_valid_sum)

lemma process_items_length: "length (fst (process_items b)) = length (participants b)"
proof -
  have "length (map participantId (fst (process_items b))) = length (map p_id (participants b))"
    by (simp only: process_items_ids)
  then show ?thesis by simp
qed

subsection \<open>The cases of the fee distribution\<close>

lemma js_gt_zero_cases:
  "js_gt a (Finite 0) \<longleftrightarrow> a = PosInf \<or> (\<exists>x. a = Finite x \<and> 0 < x)"
  by (cases a) simp_all

lemma js_div_Inr:
  "b \<noteq> Finite 0 \<Longrightarrow> \<exists>q. js_div a b = Inr q"
  by (cases a; cases b) auto

lemma calculateShares_None: "calculateShares None = Inr []"
  by (simp add: calculateShares_def)

lemma calculateShares_no_participants: "participants b = [] \<Longrightarrow> calculateShares (Some b) = Inr []"
  by (simp add: calculateShares_def)

lemma calculateShares_normal:
  assumes "participants b \<noteq> []" and "js_gt (snd (process_items b)) (Finite 0)"
  shows "calculateShares (Some b) =
     Inr (map (\<lambda>s. set_totalOwed
                   (case js_div (subtotal s) (snd (process_items b)) of
                      Inr proportion \<Rightarrow>
                        s\<lparr>taxShare := js_mul (taxAmount b) proportion,
                          serviceFeeShare := js_mul (serviceFeeAmount b) proportion\<rparr>
                    | Inl e \<Rightarrow> s))
            (fst (process_items b)))"
proof -
  let ?T = "snd (process_items b)"
  from assms(2) have nz: "?T \<noteq> Finite 0" by (auto simp add: js_gt_zero_cases)
  then have ne: "\<not> js_strict_equal ?T (Finite 0)" by (simp add: js_strict_equal_def)
  have "forEach (proportional_split b ?T) (fst (process_items b)) =
     Inr (map (\<lambda>s. case js_div (subtotal s) ?T of
                     Inr proportion \<Rightarrow>
                       s\<lparr>taxShare := js_mul (taxAmount b) proportion,
                         serviceFeeShare := js_mul (serviceFeeAmount b) proportion\<rparr>
                   | Inl e \<Rightarrow> s)
            (fst (process_items b)))"
  proof (rule forEach_map)
    fix s :: ParticipantShare
    from js_div_Inr [OF nz] obtain q where "js_div (subtotal s) ?T = Inr q" by blast
    then show "proportional_split b ?T s =
       Inr (case js_div (subtotal s) ?T of
              Inr proportion \<Rightarrow>
                s\<lparr>taxShare := js_mul (taxAmount b) proportion,
                  serviceFeeShare := js_mul (serviceFeeAmount b) proportion\<rparr>
            | Inl e \<Rightarrow> s)"
      by (simp add: proportional_split_def)
  qed
  with assms ne show ?thesis
    by (simp add: calculateShares_def distribute_fees_def o_def)
qed

lemma calculateShares_degenerate:
  assumes "participants b \<noteq> []" and "snd (process_items b) = Finite 0"
    and "js_gt (taxAmount b) (Finite 0) \<or> js_gt (serviceFeeAmount b) (Finite 0)"
  shows "calculateShares (Some b) =
     Inr (map (\<lambda>s. set_totalOwed
                   (case js_div (taxAmount b) (Finite (real (length (participants b)))) of
                      Inr t \<Rightarrow>
                        (case js_div (serviceFeeAmount b) (Finite (real (length (participants b)))) of
                           Inr f \<Rightarrow> s\<lparr>taxShare := t, serviceFeeShare := f\<rparr>
                         | Inl e \<Rightarrow> s)
                    | Inl e \<Rightarrow> s))
            (fst (process_items b)))"
proof -
  let ?n = "Finite (real (length (participants b)))"
  from assms(1) have nz: "?n \<noteq> Finite 0" by simp
  from js_div_Inr [OF nz] obtain t where t: "js_div (taxAmount b) ?n = Inr t" by blast
  from js_div_Inr [OF nz] obtain f where f: "js_div (serviceFeeAmount b) ?n = Inr f" by blast
  have "forEach (equal_split b (length (participants b))) (fst (process_items b)) =
     Inr (map (\<lambda>s. s\<lparr>taxShare := t, serviceFeeShare := f\<rparr>) (fst (process_items b)))"
    by (rule forEach_map) (simp add: equal_split_def t f del: js_div.simps)
  with assms show ?thesis
    by (simp add: calculateShares_def distribute_fees_def o_def Let_def js_strict_equal_def t f
        del: js_div.simps)
qed

lemma calculateShares_no_fees:
  assumes "participants b \<noteq> []" and "\<not> js_gt (snd (process_items b)) (Finite 0)"
    and "snd (process_items b) = Finite 0
           \<longrightarrow> \<not> (js_gt (taxAmount b) (Finite 0) \<or> js_gt (serviceFeeAmount b) (Finite 0))"
  shows "calculateShares (Some b) = Inr (map set_totalOwed (fst (process_items b)))"
  using assms by (auto simp add: calculateShares_def distribute_fees_def js_strict_equal_def)

lemma calculateShares_cases:
  assumes "participants b \<noteq> []"
  obtains (normal) "js_gt (snd (process_items b)) (Finite 0)"
  | (degenerate) "snd (process_items b) = Finite 0"
      "js_gt (taxAmount b) (Finite 0) \<or> js_gt (serviceFeeAmount b) (Finite 0)"
  | (no_fees) "\<not> js_gt (snd (process_items b)) (Finite 0)"
      "snd (process_items b) = Finite 0
         \<longrightarrow> \<not> (js_gt (taxAmount b) (Finite 0) \<or> js_gt (serviceFeeAmount b) (Finite 0))"
  by (cases "js_gt (snd (process_items b)) (Finite 0)") fastforce+

lemma calculateShares_total: "\<exists>shares. calculateShares cb = Inr shares"
proof (cases cb)
  case None
  then show ?thesis by (simp add: calculateShares_None)
next
  case (Some b)
  show ?thesis
  proof (cases "participants b = []")
    case True
    with Some show ?thesis by (simp add: calculateShares_no_participants)
  next
    case False
    then show ?thesis
    proof (cases rule: calculateShares_cases)
      case normal
      with calculateShares_normal [OF False] Some show ?thesis by simp
    next
      case degenerate
      with calculateShares_degenerate [OF False] Some show ?thesis by simp
    next
      case no_fees
      with calculateShares_no_fees [OF False] Some show ?thesis by simp
    qed
  qed
qed

subsection \<open>Shape of the result\<close>

lemma set_totalOwed_fields [simp]:
  "items (set_totalOwed s) = items s"
  "subtotal (set_totalOwed s) = subtotal s"
  "taxShare (set_totalOwed s) = taxShare s"
  "serviceFeeShare (set_totalOwed s) = serviceFeeShare s"
  "participantId (set_totalOwed s) = participantId s"
  "participantName (set_totalOwed s) = participantName s"
  "totalOwed (set_totalOwed s) = js_add (js_add (subtotal s) (taxShare s)) (serviceFeeShare s)"
  by (simp_all add: set_totalOwed_def)

text \<open>
  The result is the list of shares of the item loop, mapped by a function that sets
  the fees and the total and leaves the rest.
\<close>

lemma calculateShares_map:
  assumes "calculateShares (Some b) = Inr shares"
  obtains g where "shares = map g (fst (process_items b))"
    and "\<And>s. items (g s) = items s" and "\<And>s. subtotal (g s) = subtotal s"
    and "\<And>s. participantId (g s) = participantId s"
    and "\<And>s. participantName (g s) = participantName s"
    and "\<And>s. totalOwed (g s) = js_add (js_add (subtotal s) (taxShare (g s))) (serviceFeeShare (g s))"
proof (cases "participants b = []")
  case True
  with assms have "shares = []" by (simp add: calculateShares_no_participants)
  moreover from True have "fst (process_items b) = []"
    using process_items_length [of b] by simp
  ultimately have "shares = map set_totalOwed (fst (process_items b))" by simp
  then show ?thesis by (rule that) simp_all
next
  case False
  then show ?thesis
  proof (cases rule: calculateShares_cases)
    case normal
    from calculateShares_normal [OF False normal] assms
    have "shares = map (\<lambda>s. set_totalOwed
                   (case js_div (subtotal s) (snd (process_items b)) of
                      Inr proportion \<Rightarrow>
                        s\<lparr>taxShare := js_mul (taxAmount b) proportion,
                          serviceFeeShare := js_mul (serviceFeeAmount b) proportion\<rparr>
                    | Inl e \<Rightarrow> s))
            (fst (process_items b))"
      by simp
    then show ?thesis by (rule that) (simp_all split: sum.splits)
  next
    case degenerate
    from calculateShares_degenerate [OF False degenerate] assms
    have "shares = map (\<lambda>s. set_totalOwed
                   (case js_div (taxAmount b) (Finite (real (length (participants b)))) of
                      Inr t \<Rightarrow>
                        (case js_div (serviceFeeAmount b) (Finite (real (length (participants b)))) of
                           Inr f \<Rightarrow> s\<lparr>taxShare := t, serviceFeeShare := f\<rparr>
                         | Inl e \<Rightarrow> s)
                    | Inl e \<Rightarrow> s))
            (fst (process_items b))"
      by simp
    then show ?thesis by (rule that) (simp_all split: sum.splits del: js_div.simps)
  next
    case no_fees
    from calculateShares_no_fees [OF False no_fees] assms
    have "shares = map set_totalOwed (fst (process_items b))" by simp
    then show ?thesis by (rule that) simp_all
  qed
qed

lemma calculateShares_length:
  assumes "calculateShares (Some b) = Inr shares"
  shows "length shares = length (participants b)"
  using assms by (rule calculateShares_map) (simp add: process_items_length)

lemma calculateShares_share:
  assumes "calculateShares (Some b) = Inr shares" and "s \<in> set shares"
  shows "\<exists>s0 \<in> set (fst (process_items b)).
           items s = items s0 \<and> subtotal s = subtotal s0 \<and> participantId s = participantId s0
           \<and> participantName s = participantName s0
           \<and> totalOwed s = js_add (js_add (subtotal s) (taxShare s)) (serviceFeeShare s)"
  using assms(1)
proof (rule calculateShares_map)
  fix g
  assume g: "shares = map g (fst (process_items b))"
    "\<And>s. items (g s) = items s" "\<And>s. subtotal (g s) = subtotal s"
    "\<And>s. participantId (g s) = participantId s"
    "\<And>s. participantName (g s) = participantName s"
    "\<And>s. totalOwed (g s) = js_add (js_add (subtotal s) (taxShare (g s))) (serviceFeeShare (g s))"
  from assms(2) g(1) obtain s0 where "s0 \<in> set (fst (process_items b))" and "s = g s0" by auto
  with g(2-6) show ?thesis by (intro bexI [of _ s0]) simp_all
qed

lemma calculateShares_ids:
  assumes "calculateShares (Some b) = Inr shares"
  shows "map participantId shares = map p_id (participants b)"
  using assms
proof (rule calculateShares_map)
  fix g
  assume "shares = map g (fst (process_items b))" and "\<And>s. participantId (g s) = participantId s"
  then show ?thesis using process_items_ids [of b] by (simp add: o_def)
qed

lemma calculateShares_total_owed:
  assumes "calculateShares (Some b) = Inr shares" and "s \<in> set shares"
  shows "totalOwed s = js_add (js_add (subtotal s) (taxShare s)) (serviceFeeShare s)"
  using calculateShares_share [OF assms] by blast

section \<open>Evaluation\<close>

lemmas fl_eval = fl_def fl_pos_def ulp_def exponent_def exp_lo.simps exp_hi.simps round_even_def Let_def

lemmas engine_defs = calculateShares_def process_items_def process_item_def distribute_fees_def
  proportional_split_def equal_split_def initial_share_def set_totalOwed_def js_strict_equal_def

lemma fl_nonneg_cases:
  assumes "0 \<le> x"
  shows "fl x = PosInf \<or> (\<exists>r. fl x = Finite r \<and> 0 \<le> r \<and> is_double r)"
proof (cases "x = 0")
  case True
  then show ?thesis by (simp add: is_double_def)
next
  case False
  with assms have pos: "0 < x" by simp
  show ?thesis
  proof (cases "fl x")
    case (Finite r)
    with fl_result(1,3) [OF Finite] assms show ?thesis by simp
  next
    case PosInf
    then show ?thesis by simp
  next
    case NegInf
    with pos show ?thesis by (auto simp add: fl_def fl_pos_def Let_def split: if_splits)
  next
    case NaN
    with pos show ?thesis by (auto simp add: fl_def fl_pos_def Let_def split: if_splits)
  qed
qed

lemma js_sum_nonneg:
  assumes "\<forall>x \<in> set xs. \<exists>p. x = Finite p \<and> 0 \<le> p \<and> is_double p"
  shows "js_sum xs = PosInf \<or> (\<exists>t. js_sum xs = Finite t \<and> 0 \<le> t \<and> is_double t)"
  using assms
proof (induction xs rule: rev_induct)
  case Nil
  then show ?case by (simp add: js_sum_def is_double_def)
next
  case (snoc x xs)
  then obtain p where p: "x = Finite p" "0 \<le> p" by auto
  from snoc have "js_sum xs = PosInf \<or> (\<exists>t. js_sum xs = Finite t \<and> 0 \<le> t \<and> is_double t)" by simp
  then show ?case
  proof
    assume "js_sum xs = PosInf"
    with p show ?thesis by (simp add: js_sum_snoc)
  next
    assume "\<exists>t. js_sum xs = Finite t \<and> 0 \<le> t \<and> is_double t"
    then obtain t where t: "js_sum xs = Finite t" "0 \<le> t" by blast
    with p fl_nonneg_cases [of "t + p"] show ?thesis by (simp add: js_sum_snoc)
  qed
qed

lemma js_sum_nonneg_zero:
  assumes "\<forall>x \<in> set xs. \<exists>p. x = Finite p \<and> 0 \<le> p \<and> is_double p" and "js_sum xs = Finite 0"
  shows "\<forall>x \<in> set xs. x = Finite 0"
  using assms
proof (induction xs rule: rev_induct)
  case Nil
  then show ?case by simp
next
  case (snoc x xs)
  then obtain p where p: "x = Finite p" "0 \<le> p" "is_double p" by auto
  from snoc.prems(1) have all: "\<forall>x \<in> set xs. \<exists>p. x = Finite p \<and> 0 \<le> p \<and> is_double p" by simp
  from js_sum_nonneg [OF all] show ?case
  proof
    assume "js_sum xs = PosInf"
    with p snoc.prems(2) show ?thesis by (simp add: js_sum_snoc)
  next
    assume "\<exists>t. js_sum xs = Finite t \<and> 0 \<le> t \<and> is_double t"
    then obtain t where t: "js_sum xs = Finite t" "0 \<le> t" "is_double t" by blast
    with p snoc.prems(2) have "js_add (Finite t) (Finite p) = Finite 0" by (simp add: js_sum_snoc)
    from js_add_nonneg_zero [OF t(3) p(3) t(2) p(2) this] have "t = 0" "p = 0" by simp_all
    with t p snoc.IH [OF all] show ?thesis by simp
  qed
qed

lemma js_sum_zeros: "\<forall>x \<in> set xs. x = Finite 0 \<Longrightarrow> js_sum xs = Finite 0"
  by (induction xs rule: rev_induct) (simp_all add: js_sum_def)

subsection \<open>Whole numbers: the arithmetic is exact\<close>

lemma is_whole_Finite: "is_whole a \<Longrightarrow> a = Finite (num_val a)"
  by (cases a) simp_all

lemma is_whole_zero [simp]: "is_whole (Finite 0)"
  by simp

lemma push_to_share_whole:
  assumes "\<forall>s \<in> set ss. is_whole (subtotal s) \<and> I (num_val (subtotal s))"
    and "is_whole (price it)"
    and "\<And>v. I v \<Longrightarrow> \<bar>v + num_val (price it)\<bar> \<le> 2 ^ 53 \<and> I' (v + num_val (price it))"
    and "\<And>v. I v \<Longrightarrow> I' v"
  shows "\<forall>s \<in> set (push_to_share it pid ss). is_whole (subtotal s) \<and> I' (num_val (subtotal s))"
    and "sum_list (map (\<lambda>s. num_val (subtotal s)) (push_to_share it pid ss)) =
           sum_list (map (\<lambda>s. num_val (subtotal s)) ss) +
           (if pid \<in> set (map participantId ss) then num_val (price it) else 0)"
  using assms(1)
proof (induction ss)
  case Nil
  {
    case 1
    show ?case by simp
  next
    case 2
    show ?case by simp
  }
next
  case (Cons s ss)
  {
    case 1
    from 1 have s: "is_whole (subtotal s)" "I (num_val (subtotal s))"
      and rest: "\<forall>s \<in> set ss. is_whole (subtotal s) \<and> I (num_val (subtotal s))"
      by simp_all
    from assms(3) [OF s(2)] have b: "\<bar>num_val (subtotal s) + num_val (price it)\<bar> \<le> 2 ^ 53"
      and i': "I' (num_val (subtotal s) + num_val (price it))" by simp_all
    from js_add_whole [OF s(1) assms(2) b]
    have add: "js_add (subtotal s) (price it) = Finite (num_val (subtotal s) + num_val (price it))"
      "is_whole (js_add (subtotal s) (price it))" by simp_all
    show ?case
    proof (cases "participantId s = pid")
      case True
      with add i' rest assms(4) show ?thesis by auto
    next
      case False
      with s assms(4) Cons.IH(1) [OF rest] show ?thesis by auto
    qed
  next
    case 2
    from 2 have s: "is_whole (subtotal s)" "I (num_val (subtotal s))"
      and rest: "\<forall>s \<in> set ss. is_whole (subtotal s) \<and> I (num_val (subtotal s))"
      by simp_all
    from assms(3) [OF s(2)] have b: "\<bar>num_val (subtotal s) + num_val (price it)\<bar> \<le> 2 ^ 53"
      by simp
    from js_add_whole [OF s(1) assms(2) b]
    have add: "js_add (subtotal s) (price it) = Finite (num_val (subtotal s) + num_val (price it))"
      by simp
    show ?case
    proof (cases "participantId s = pid")
      case True
      with add show ?thesis by simp
    next
      case False
      with Cons.IH(2) [OF rest] show ?thesis by simp
    qed
  }
qed

lemma process_item_whole:
  assumes "\<forall>s \<in> set (fst st). is_whole (subtotal s) \<and> I (num_val (subtotal s))"
    and "is_whole (price it)"
    and "\<And>v. I v \<Longrightarrow> \<bar>v + num_val (price it)\<bar> \<le> 2 ^ 53 \<and> I' (v + num_val (price it))"
    and "\<And>v. I v \<Longrightarrow> I' v"
  shows "\<forall>s \<in> set (fst (process_item b st it)). is_whole (subtotal s) \<and> I' (num_val (subtotal s))"
    and "sum_list (map (\<lambda>s. num_val (subtotal s)) (fst (process_item b st it))) =
           sum_list (map (\<lambda>s. num_val (subtotal s)) (fst st)) +
           (if \<exists>pid. itemAssignments b (item_id it) = Some (Some pid) \<and> pid \<noteq> []
                      \<and> pid \<in> set (map participantId (fst st))
            then num_val (price it) else 0)"
proof -
  note push = push_to_share_whole [of "fst st" I it I', OF assms]
  from assms(1,4) have keep: "\<forall>s \<in> set (fst st). is_whole (subtotal s) \<and> I' (num_val (subtotal s))"
    by blast
  show "\<forall>s \<in> set (fst (process_item b st it)). is_whole (subtotal s) \<and> I' (num_val (subtotal s))"
    using push(1) keep by (simp add: process_item_def Let_def split: option.splits)
  show "sum_list (map (\<lambda>s. num_val (subtotal s)) (fst (process_item b st it))) =
           sum_list (map (\<lambda>s. num_val (subtotal s)) (fst st)) +
           (if \<exists>pid. itemAssignments b (item_id it) = Some (Some pid) \<and> pid \<noteq> []
                      \<and> pid \<in> set (map participantId (fst st))
            then num_val (price it) else 0)"
    using push(2) by (simp add: process_item_def Let_def split: option.splits)
qed

lemma sum_list_max_nonneg: "0 \<le> sum_list (map (\<lambda>x. max 0 (f x :: real)) xs)"
  by (induction xs) (simp_all add: add_nonneg_nonneg)

lemma foldl_process_whole:
  assumes "\<forall>it \<in> set xs. is_whole (price it)"
    and "nn \<longrightarrow> (\<forall>it \<in> set xs. 0 \<le> num_val (price it))"
    and "\<forall>s \<in> set (fst st). is_whole (subtotal s)
           \<and> - (2 ^ 53) + sum_list (map (\<lambda>it. max 0 (- num_val (price it))) xs) \<le> num_val (subtotal s)
           \<and> num_val (subtotal s) \<le> 2 ^ 53 - sum_list (map (\<lambda>it. max 0 (num_val (price it))) xs)
           \<and> (nn \<longrightarrow> 0 \<le> num_val (subtotal s))"
  shows "(\<forall>s \<in> set (fst (foldl (process_item b) st xs)). is_whole (subtotal s)
           \<and> \<bar>num_val (subtotal s)\<bar> \<le> 2 ^ 53 \<and> (nn \<longrightarrow> 0 \<le> num_val (subtotal s)))
         \<and> sum_list (map (\<lambda>s. num_val (subtotal s)) (fst (foldl (process_item b) st xs))) =
           sum_list (map (\<lambda>s. num_val (subtotal s)) (fst st)) +
           sum_list (map (\<lambda>it. num_val (price it))
             (filter (\<lambda>it. \<exists>pid. itemAssignments b (item_id it) = Some (Some pid) \<and> pid \<noteq> []
                              \<and> pid \<in> set (map participantId (fst st))) xs))"
  using assms
proof (induction xs arbitrary: st)
  case Nil
  then show ?case by auto
next
  case (Cons x xs)
  let ?N = "sum_list (map (\<lambda>it. max 0 (- num_val (price it))) xs)"
  let ?P = "sum_list (map (\<lambda>it. max 0 (num_val (price it))) xs)"
  let ?p = "num_val (price x)"
  let ?I = "\<lambda>v. - (2 ^ 53) + (max 0 (- ?p) + ?N) \<le> v \<and> v \<le> 2 ^ 53 - (max 0 ?p + ?P) \<and> (nn \<longrightarrow> 0 \<le> v)"
  let ?I' = "\<lambda>v. - (2 ^ 53) + ?N \<le> v \<and> v \<le> 2 ^ 53 - ?P \<and> (nn \<longrightarrow> 0 \<le> v)"
  have N: "0 \<le> ?N" and P: "0 \<le> ?P" by (rule sum_list_max_nonneg)+
  from Cons.prems(2) have nnp: "nn \<longrightarrow> 0 \<le> ?p" by simp
  have inv: "\<forall>s \<in> set (fst st). is_whole (subtotal s) \<and> ?I (num_val (subtotal s))"
    using Cons.prems(3) by simp
  have wx: "is_whole (price x)" using Cons.prems(1) by simp
  have step: "\<bar>v + ?p\<bar> \<le> 2 ^ 53 \<and> ?I' (v + ?p)" if "?I v" for v
    using that N P nnp by (auto simp add: max_def split: if_splits)
  have keep: "?I' v" if "?I v" for v
    using that by (auto simp add: max_def split: if_splits)
  note pi = process_item_whole [of st ?I x ?I' b, OF inv wx step keep]
  have prem3: "\<forall>s \<in> set (fst (process_item b st x)). is_whole (subtotal s)
           \<and> - (2 ^ 53) + ?N \<le> num_val (subtotal s)
           \<and> num_val (subtotal s) \<le> 2 ^ 53 - ?P
           \<and> (nn \<longrightarrow> 0 \<le> num_val (subtotal s))"
    using pi(1) by simp
  have prem1: "\<forall>it \<in> set xs. is_whole (price it)" using Cons.prems(1) by simp
  have prem2: "nn \<longrightarrow> (\<forall>it \<in> set xs. 0 \<le> num_val (price it))" using Cons.prems(2) by simp
  note ih = Cons.IH [of "process_item b st x", OF prem1 prem2 prem3]
  from ih pi(2) show ?case by auto
qed

lemma js_sum_whole:
  assumes "\<forall>x \<in> set xs. is_whole x" and "sum_list (map (\<lambda>x. \<bar>num_val x\<bar>) xs) \<le> 2 ^ 53"
  shows "js_sum xs = Finite (sum_list (map num_val xs))" and "is_whole (js_sum xs)"
proof -
  have "js_sum xs = Finite (sum_list (map num_val xs)) \<and> is_whole (js_sum xs)"
    using assms
  proof (induction xs rule: rev_induct)
    case Nil
    show ?case by (simp add: js_sum_def)
  next
    case (snoc x xs)
    have nonneg: "0 \<le> sum_list (map (\<lambda>x. \<bar>num_val x\<bar>) xs)"
      by (induction xs) simp_all
    have tri: "\<bar>sum_list (map num_val xs)\<bar> \<le> sum_list (map (\<lambda>x. \<bar>num_val x\<bar>) xs)"
      by (induction xs) auto
    from snoc.prems(2) have le: "sum_list (map (\<lambda>x. \<bar>num_val x\<bar>) xs) \<le> 2 ^ 53" by simp
    from snoc.prems(1) have "\<forall>x \<in> set xs. is_whole x" by simp
    from snoc.IH [OF this le]
    have ih: "js_sum xs = Finite (sum_list (map num_val xs))" "is_whole (js_sum xs)"
      by blast+
    from snoc.prems(1) have wx: "is_whole x" by simp
    from ih(1) have nv: "num_val (js_sum xs) = sum_list (map num_val xs)" by simp
    have "\<bar>num_val (js_sum xs) + num_val x\<bar> \<le> 2 ^ 53"
      using tri snoc.prems(2) by (simp add: nv)
    from js_add_whole [OF ih(2) wx this] show ?case
      by (simp add: js_sum_snoc nv)
  qed
  then show "js_sum xs = Finite (sum_list (map num_val xs))" and "is_whole (js_sum xs)"
    by blast+
qed

lemma sum_list_pos_part_le:
  "sum_list (map (\<lambda>x. max 0 (f x :: real)) xs) \<le> sum_list (map (\<lambda>x. \<bar>f x\<bar>) xs)"
  "sum_list (map (\<lambda>x. max 0 (- f x)) xs) \<le> sum_list (map (\<lambda>x. \<bar>f x\<bar>) xs)"
  by (induction xs) (auto simp add: max_def)

lemma assigned_initial_share:
  "(\<exists>pid. a = Some (Some pid) \<and> pid \<noteq> [] \<and> pid \<in> set (map participantId (map initial_share ps)))
     \<longleftrightarrow> (\<exists>p \<in> set ps. p_id p \<noteq> [] \<and> a = Some (Some (p_id p)))"
  by (auto simp add: initial_share_def)

lemma process_items_whole:
  assumes "\<forall>it \<in> set (extractedItems b). is_whole (price it)"
    and "sum_list (map (\<lambda>it. \<bar>num_val (price it)\<bar>) (extractedItems b)) \<le> 2 ^ 53"
  shows "\<forall>s \<in> set (fst (process_items b)). is_whole (subtotal s)"
    and "sum_list (map (\<lambda>s. num_val (subtotal s)) (fst (process_items b))) =
         sum_list (map (\<lambda>it. num_val (price it))
           (filter (\<lambda>it. \<exists>p \<in> set (participants b).
              p_id p \<noteq> [] \<and> itemAssignments b (item_id it) = Some (Some (p_id p))) (extractedItems b)))"
    and "snd (process_items b) = Finite (sum_list (map (\<lambda>it. num_val (price it)) (extractedItems b)))"
    and "\<forall>it \<in> set (extractedItems b). 0 \<le> num_val (price it)
           \<Longrightarrow> \<forall>s \<in> set (fst (process_items b)). 0 \<le> num_val (subtotal s)"
proof -
  let ?xs = "extractedItems b"
  let ?st = "(map initial_share (participants b), Finite 0)"
  let ?nn = "\<forall>it \<in> set ?xs. 0 \<le> num_val (price it)"
  from sum_list_pos_part_le [of "\<lambda>it. num_val (price it)" ?xs] assms(2)
  have P: "sum_list (map (\<lambda>it. max 0 (num_val (price it))) ?xs) \<le> 2 ^ 53"
    and N: "sum_list (map (\<lambda>it. max 0 (- num_val (price it))) ?xs) \<le> 2 ^ 53"
    by simp_all
  have init: "\<forall>s \<in> set (fst ?st). is_whole (subtotal s)
           \<and> - (2 ^ 53) + sum_list (map (\<lambda>it. max 0 (- num_val (price it))) ?xs) \<le> num_val (subtotal s)
           \<and> num_val (subtotal s) \<le> 2 ^ 53 - sum_list (map (\<lambda>it. max 0 (num_val (price it))) ?xs)
           \<and> (?nn \<longrightarrow> 0 \<le> num_val (subtotal s))"
    using P N by (auto simp add: initial_share_def)
  have nn: "?nn \<longrightarrow> (\<forall>it \<in> set ?xs. 0 \<le> num_val (price it))" by simp
  note f = foldl_process_whole [of ?xs ?nn ?st b, OF assms(1) nn init]
  from f show "\<forall>s \<in> set (fst (process_items b)). is_whole (subtotal s)"
    by (simp add: process_items_def)
  from f show "?nn \<Longrightarrow> \<forall>s \<in> set (fst (process_items b)). 0 \<le> num_val (subtotal s)"
    by (simp add: process_items_def)
  have zero: "sum_list (map (\<lambda>s. num_val (subtotal s)) (map initial_share ps)) = 0" for ps
    by (induction ps) (simp_all add: initial_share_def)
  from f have "sum_list (map (\<lambda>s. num_val (subtotal s)) (fst (process_items b))) =
      sum_list (map (\<lambda>s. num_val (subtotal s)) (map initial_share (participants b))) +
      sum_list (map (\<lambda>it. num_val (price it))
             (filter (\<lambda>it. \<exists>pid. itemAssignments b (item_id it) = Some (Some pid) \<and> pid \<noteq> []
                              \<and> pid \<in> set (map participantId (map initial_share (participants b)))) ?xs))"
    by (simp only: process_items_def fst_conv)
  then show "sum_list (map (\<lambda>s. num_val (subtotal s)) (fst (process_items b))) =
         sum_list (map (\<lambda>it. num_val (price it))
           (filter (\<lambda>it. \<exists>p \<in> set (participants b).
              p_id p \<noteq> [] \<and> itemAssignments b (item_id it) = Some (Some (p_id p))) ?xs))"
    by (simp only: zero assigned_initial_share)
  have w: "\<forall>x \<in> set (map price ?xs). is_whole x" using assms(1) by simp
  have s: "sum_list (map (\<lambda>x. \<bar>num_val x\<bar>) (map price ?xs)) \<le> 2 ^ 53"
    using assms(2) by (simp add: o_def)
  from js_sum_whole(1) [OF w s]
  show "snd (process_items b) = Finite (sum_list (map (\<lambda>it. num_val (price it)) ?xs))"
    by (simp add: process_items_total o_def)
qed

subsection \<open>The items of a share are items of the bill\<close>

lemma push_to_share_items_subset:
  "\<forall>s \<in> set ss. set (items s) \<subseteq> A \<Longrightarrow> it \<in> A
   \<Longrightarrow> \<forall>s \<in> set (push_to_share it pid ss). set (items s) \<subseteq> A"
  by (induction ss) auto

lemma process_item_items_subset:
  "\<forall>s \<in> set (fst st). set (items s) \<subseteq> A \<Longrightarrow> it \<in> A
   \<Longrightarrow> \<forall>s \<in> set (fst (process_item b st it)). set (items s) \<subseteq> A"
  using push_to_share_items_subset [of "fst st" A it]
  by (auto simp add: process_item_def Let_def split: option.splits)

lemma foldl_process_items_subset:
  "\<forall>s \<in> set (fst st). set (items s) \<subseteq> A \<Longrightarrow> set xs \<subseteq> A
   \<Longrightarrow> \<forall>s \<in> set (fst (foldl (process_item b) st xs)). set (items s) \<subseteq> A"
proof (induction xs arbitrary: st)
  case Nil
  then show ?case by simp
next
  case (Cons x xs)
  from Cons.prems have "\<forall>s \<in> set (fst (process_item b st x)). set (items s) \<subseteq> A"
    by (intro process_item_items_subset) simp_all
  with Cons.prems(2) Cons.IH [of "process_item b st x"] show ?case by simp
qed

lemma process_items_share_items:
  assumes "s \<in> set (fst (process_items b))"
  shows "set (items s) \<subseteq> set (extractedItems b)"
proof -
  have "\<forall>s \<in> set (fst (map initial_share (participants b), Finite 0)).
          set (items s) \<subseteq> set (extractedItems b)"
    by (simp add: initial_share_def)
  from foldl_process_items_subset [OF this subset_refl, of b] assms show ?thesis
    by (simp add: process_items_def)
qed


subsection \<open>Assignments that name no participant\<close>

lemma process_item_dangling:
  assumes "itemAssignments b (item_id it) = Some (Some pid)"
    and "pid \<notin> set (map participantId (fst st))"
  shows "process_item b st it = (fst st, js_add (snd st) (price it))"
  using assms push_to_share_absent [of pid "fst st" it]
  by (simp add: process_item_def Let_def)

lemma process_item_unassigned:
  assumes "itemAssignments b (item_id it) = None \<or> itemAssignments b (item_id it) = Some None"
  shows "process_item b st it = (fst st, js_add (snd st) (price it))"
  using assms by (auto simp add: process_item_def)

lemma process_item_reassign:
  assumes "itemAssignments b k = Some (Some pid)"
    and "pid \<notin> set (map participantId (fst st))"
    and "v = None \<or> v = Some None"
  shows "process_item (b\<lparr>itemAssignments := (itemAssignments b)(k := v)\<rparr>) st it = process_item b st it"
proof (cases "item_id it = k")
  case True
  with assms(1,2) have "process_item b st it = (fst st, js_add (snd st) (price it))"
    by (intro process_item_dangling) simp_all
  moreover from True assms(3)
  have "process_item (b\<lparr>itemAssignments := (itemAssignments b)(k := v)\<rparr>) st it = (fst st, js_add (snd st) (price it))"
    by (intro process_item_unassigned) auto
  ultimately show ?thesis by simp
next
  case False
  then show ?thesis by (simp add: process_item_def)
qed

lemma foldl_process_agree:
  assumes "\<And>st it. pid \<notin> set (map participantId (fst st)) \<Longrightarrow> process_item b' st it = process_item b st it"
  shows "pid \<notin> set (map participantId (fst st)) \<Longrightarrow>
     foldl (process_item b') st xs = foldl (process_item b) st xs"
proof (induction xs arbitrary: st)
  case Nil
  then show ?case by simp
next
  case (Cons x xs)
  from Cons.prems have "pid \<notin> set (map participantId (fst (process_item b st x)))"
    by simp
  from Cons.IH [OF this] assms [OF Cons.prems]
  show ?case by (simp only: foldl_Cons)
qed

lemma calculateShares_reassign:
  assumes "itemAssignments b k = Some (Some pid)" and "pid \<notin> set (map p_id (participants b))"
    and "v = None \<or> v = Some None"
  shows "calculateShares (Some (b\<lparr>itemAssignments := (itemAssignments b)(k := v)\<rparr>))
           = calculateShares (Some b)"
proof -
  let ?b' = "b\<lparr>itemAssignments := (itemAssignments b)(k := v)\<rparr>"
  from assms(2) have "pid \<notin> set (map participantId (fst (map initial_share (participants b), Finite 0)))"
    by (simp add: initial_share_def o_def)
  from foldl_process_agree [of pid ?b' b, OF process_item_reassign [OF assms(1) _ assms(3)] this]
  have items: "process_items ?b' = process_items b"
    by (simp add: process_items_def)
  have "equal_split ?b' = equal_split b"
    by (intro ext) (simp add: equal_split_def split: sum.splits)
  moreover have "proportional_split ?b' = proportional_split b"
    by (intro ext) (simp add: proportional_split_def split: sum.splits)
  ultimately have "distribute_fees ?b' = distribute_fees b"
    by (intro ext) (auto simp add: distribute_fees_def)
  with items show ?thesis
    by (simp add: calculateShares_def)
qed


section \<open>Properties of the controller\<close>

subsection \<open>The gates of the summary step\<close>

lemma js_truthy_iff: "js_truthy a \<longleftrightarrow> (\<exists>p. a = Some (Some p) \<and> p \<noteq> [])"
  by (cases a rule: js_truthy.cases) simp_all

lemma unassignedItems_eq:
  "unassignedItems b =
     filter (\<lambda>item. \<not> (\<exists>p. itemAssignments b (item_id item) = Some (Some p) \<and> p \<noteq> []))
       (extractedItems b)"
  by (simp add: unassignedItems_def js_truthy_iff)

lemma unassignedItems_empty_iff:
  "unassignedItems b = [] \<longleftrightarrow>
     (\<forall>item \<in> set (extractedItems b). \<exists>p. itemAssignments b (item_id item) = Some (Some p) \<and> p \<noteq> [])"
  by (simp add: unassignedItems_eq filter_empty_conv)

lemma handleViewSummary_no_bill:
  "currentBill s = None \<Longrightarrow>
     handleViewSummary s = (clearMessages s)\<lparr>errorMessage := ''No bill data available.''\<rparr>"
  by (simp add: handleViewSummary_def)

lemma handleViewSummary_no_participants:
  "currentBill s = Some b \<Longrightarrow> participants b = [] \<Longrightarrow>
     handleViewSummary s =
       (clearMessages s)\<lparr>errorMessage := ''Please add participants before viewing summary.''\<rparr>"
  by (simp add: handleViewSummary_def)

lemma handleViewSummary_no_items:
  "currentBill s = Some b \<Longrightarrow> participants b \<noteq> [] \<Longrightarrow> extractedItems b = [] \<Longrightarrow>
     handleViewSummary s = (clearMessages s)\<lparr>errorMessage := ''Please add items to the bill.''\<rparr>"
  by (simp add: handleViewSummary_def)

lemma handleViewSummary_unassigned:
  "currentBill s = Some b \<Longrightarrow> participants b \<noteq> [] \<Longrightarrow> extractedItems b \<noteq> [] \<Longrightarrow>
   unassignedItems b \<noteq> [] \<Longrightarrow>
     handleViewSummary s =
       (clearMessages s)\<lparr>errorMessage := ''Please assign all items. ''
           @ string_of_nat (length (unassignedItems b)) @ '' item(s) are unassigned.''\<rparr>"
  by (simp add: handleViewSummary_def)

lemma handleViewSummary_ok:
  "currentBill s = Some b \<Longrightarrow> participants b \<noteq> [] \<Longrightarrow> extractedItems b \<noteq> [] \<Longrightarrow>
   unassignedItems b = [] \<Longrightarrow>
     handleViewSummary s = (clearMessages s)\<lparr>appStep := VIEW_SUMMARY\<rparr>"
  by (simp add: handleViewSummary_def)

lemma clearMessages_fields [simp]:
  "errorMessage (clearMessages s) = []"
  "successMessage (clearMessages s) = []"
  "appStep (clearMessages s) = appStep s"
  "currentBill (clearMessages s) = currentBill s"
  "historicalBills (clearMessages s) = historicalBills s"
  "viewingBillDetails (clearMessages s) = viewingBillDetails s"
  by (simp_all add: clearMessages_def)

lemma error_state_differs:
  "msg \<noteq> [] \<Longrightarrow> (clearMessages s)\<lparr>errorMessage := msg\<rparr> \<noteq> (clearMessages s)\<lparr>appStep := step\<rparr>"
proof
  assume "msg \<noteq> []" and "(clearMessages s)\<lparr>errorMessage := msg\<rparr> = (clearMessages s)\<lparr>appStep := step\<rparr>"
  then have "errorMessage ((clearMessages s)\<lparr>errorMessage := msg\<rparr>) = errorMessage ((clearMessages s)\<lparr>appStep := step\<rparr>)"
    by simp
  with \<open>msg \<noteq> []\<close> show False by simp
qed

lemma string_of_nat_1: "string_of_nat 1 = ''1''"
  by (subst string_of_nat.simps) (simp add: digit_char_def)

subsection \<open>Removing a participant\<close>

lemma remove_assignments_to_cases:
  "remove_assignments_to p m k = (if m k = Some (Some p) then None else m k)"
  by (simp add: remove_assignments_to_def split: option.splits)

lemma handleRemoveParticipant_Some:
  "currentBill s = Some b \<Longrightarrow>
     currentBill (handleRemoveParticipant p s) =
       Some (b\<lparr>participants := filter (\<lambda>q. p_id q \<noteq> p) (participants b),
               itemAssignments := remove_assignments_to p (itemAssignments b)\<rparr>)"
  by (simp add: handleRemoveParticipant_def)

subsection \<open>Saving and viewing\<close>

lemma billToSave_truncate: "BillSession.truncate (billToSave b finalShares) = b"
  by (simp add: billToSave_def BillSession.truncate_def)

lemma billToSave_fields [simp]:
  "bill_id (billToSave b finalShares) = bill_id b"
  "calculatedShares (billToSave b finalShares) = Some finalShares"
  by (simp_all add: billToSave_def)

lemma handleSaveBill_no_bill:
  "currentBill s = None \<Longrightarrow> handleSaveBill (s, st) = Inr (clearMessages s, st)"
  by (simp add: handleSaveBill_def)

lemma handleSaveBill_Some:
  assumes "currentBill s = Some b" and "calculateShares (Some b) = Inr finalShares"
  shows "handleSaveBill (s, st) =
     Inr (s\<lparr>errorMessage := [], successMessage := ''Bill saved successfully!'',
             historicalBills := billToSave b finalShares # loadBillsFromStorage st,
             currentBill := None, appStep := UPLOAD_RECEIPT\<rparr>,
          saveBillsToStorage (billToSave b finalShares # loadBillsFromStorage st) st)"
  using assms by (simp add: handleSaveBill_def addBillToStorage_def clearMessages_def Let_def)

lemma viewBillFromHistory_head:
  assumes "historicalBills t = x # rest" and "bill_id x = i"
  shows "viewBillFromHistory i t = (clearMessages t)\<lparr>viewingBillDetails := Some x, appStep := VIEW_SUMMARY\<rparr>"
  using assms by (simp add: viewBillFromHistory_def)

lemma summaryShares_viewing:
  "viewingBillDetails t = Some x \<Longrightarrow> calculatedShares x = Some shares \<Longrightarrow> summaryShares t = Inr shares"
  by (simp add: summaryShares_def)

lemma handleDeleteBill_history:
  "historicalBills (fst (handleDeleteBill i w)) = filter (\<lambda>x. bill_id x \<noteq> i) (loadBillsFromStorage (snd w))"
  by (simp add: handleDeleteBill_def deleteBillFromStorage_def Let_def split: option.splits)

lemma calculateShares_bill_two: "calculateShares (Some bill_two) = Inr shares_two"
  by (simp add: bill_two_def ann_def bob_def item_nasi_def item_mie_def shares_two_def
      engine_defs fl_eval)

lemma currentBill_summary_two: "currentBill (handleViewSummary (editing bill_two)) = Some bill_two"
  by (simp add: handleViewSummary_def editing_def bill_two_def clearMessages_def unassignedItems_def
      item_nasi_def item_mie_def)

section \<open>The claims\<close>

text \<open>
  C1. With participants \<open>[A, B]\<close>, an item priced 20000 assigned to A, an item
  priced 30000 assigned to B (in either order), \<open>taxAmount = 5000\<close> and
  \<open>serviceFeeAmount = 0\<close>, \<open>calculateShares\<close> returns A's share with
  \<open>taxShare = 2000\<close>, \<open>totalOwed = 22000\<close> and B's share with \<open>taxShare = 3000\<close>,
  \<open>totalOwed = 33000\<close>. In general, when the running total \<open>totalBillSubtotal\<close> of
  the item prices is positive, every share has
  \<open>taxShare = taxAmount * (subtotal / totalBillSubtotal)\<close>,
  \<open>serviceFeeShare = serviceFeeAmount * (subtotal / totalBillSubtotal)\<close> and
  \<open>totalOwed = subtotal + taxShare + serviceFeeShare\<close>, each operation being the
  operation on doubles.
\<close>

theorem calculateShares_normal_case:
  "(participants b = [A, B] \<and> p_id A \<noteq> [] \<and> p_id B \<noteq> [] \<and> p_id A \<noteq> p_id B \<and>
    (extractedItems b = [iA, iB] \<or> extractedItems b = [iB, iA]) \<and>
    price iA = Finite 20000 \<and> price iB = Finite 30000 \<and>
    itemAssignments b (item_id iA) = Some (Some (p_id A)) \<and>
    itemAssignments b (item_id iB) = Some (Some (p_id B)) \<and>
    taxAmount b = Finite 5000 \<and> serviceFeeAmount b = Finite 0
    \<longrightarrow> calculateShares (Some b) = Inr
          [\<lparr>participantId = p_id A, participantName = p_name A, items = [iA],
            subtotal = Finite 20000, taxShare = Finite 2000, serviceFeeShare = Finite 0,
            totalOwed = Finite 22000\<rparr>,
           \<lparr>participantId = p_id B, participantName = p_name B, items = [iB],
            subtotal = Finite 30000, taxShare = Finite 3000, serviceFeeShare = Finite 0,
            totalOwed = Finite 33000\<rparr>])
   \<and>
   (js_gt (js_sum (map price (extractedItems b))) (Finite 0) \<longrightarrow>
     (\<exists>shares. calculateShares (Some b) = Inr shares \<and>
        (\<forall>s \<in> set shares. \<exists>proportion.
           js_div (subtotal s) (js_sum (map price (extractedItems b))) = Inr proportion \<and>
           taxShare s = js_mul (taxAmount b) proportion \<and>
           serviceFeeShare s = js_mul (serviceFeeAmount b) proportion \<and>
           totalOwed s = js_add (js_add (subtotal s) (taxShare s)) (serviceFeeShare s))))"
proof (intro conjI impI)
  assume h: "participants b = [A, B] \<and> p_id A \<noteq> [] \<and> p_id B \<noteq> [] \<and> p_id A \<noteq> p_id B \<and>
    (extractedItems b = [iA, iB] \<or> extractedItems b = [iB, iA]) \<and>
    price iA = Finite 20000 \<and> price iB = Finite 30000 \<and>
    itemAssignments b (item_id iA) = Some (Some (p_id A)) \<and>
    itemAssignments b (item_id iB) = Some (Some (p_id B)) \<and>
    taxAmount b = Finite 5000 \<and> serviceFeeAmount b = Finite 0"
  then have ps: "participants b = [A, B]" and ids: "p_id A \<noteq> []" "p_id B \<noteq> []" "p_id A \<noteq> p_id B"
    and pr: "price iA = Finite 20000" "price iB = Finite 30000"
    and asg: "itemAssignments b (item_id iA) = Some (Some (p_id A))"
             "itemAssignments b (item_id iB) = Some (Some (p_id B))"
    and fees: "taxAmount b = Finite 5000" "serviceFeeAmount b = Finite 0"
    and its: "extractedItems b = [iA, iB] \<or> extractedItems b = [iB, iA]"
    by simp_all
  from its show "calculateShares (Some b) = Inr
          [\<lparr>participantId = p_id A, participantName = p_name A, items = [iA],
            subtotal = Finite 20000, taxShare = Finite 2000, serviceFeeShare = Finite 0,
            totalOwed = Finite 22000\<rparr>,
           \<lparr>participantId = p_id B, participantName = p_name B, items = [iB],
            subtotal = Finite 30000, taxShare = Finite 3000, serviceFeeShare = Finite 0,
            totalOwed = Finite 33000\<rparr>]"
  proof
    assume "extractedItems b = [iA, iB]"
    with ps ids pr asg fees show ?thesis
      by (simp add: engine_defs fl_eval)
  next
    assume "extractedItems b = [iB, iA]"
    with ps ids pr asg fees show ?thesis
      by (simp add: engine_defs fl_eval)
  qed
next
  assume pos: "js_gt (js_sum (map price (extractedItems b))) (Finite 0)"
  let ?T = "js_sum (map price (extractedItems b))"
  show "\<exists>shares. calculateShares (Some b) = Inr shares \<and>
        (\<forall>s \<in> set shares. \<exists>proportion.
           js_div (subtotal s) ?T = Inr proportion \<and>
           taxShare s = js_mul (taxAmount b) proportion \<and>
           serviceFeeShare s = js_mul (serviceFeeAmount b) proportion \<and>
           totalOwed s = js_add (js_add (subtotal s) (taxShare s)) (serviceFeeShare s))"
  proof (cases "participants b = []")
    case True
    then show ?thesis by (simp add: calculateShares_no_participants)
  next
    case False
    from pos have gt: "js_gt (snd (process_items b)) (Finite 0)" by (simp add: process_items_total)
    then have nz: "?T \<noteq> Finite 0" by (auto simp add: js_gt_zero_cases process_items_total)
    have "\<exists>proportion.
           js_div (subtotal s) ?T = Inr proportion \<and>
           taxShare s = js_mul (taxAmount b) proportion \<and>
           serviceFeeShare s = js_mul (serviceFeeAmount b) proportion \<and>
           totalOwed s = js_add (js_add (subtotal s) (taxShare s)) (serviceFeeShare s)"
      if "s \<in> set (map (\<lambda>s. set_totalOwed
                   (case js_div (subtotal s) (snd (process_items b)) of
                      Inr proportion \<Rightarrow>
                        s\<lparr>taxShare := js_mul (taxAmount b) proportion,
                          serviceFeeShare := js_mul (serviceFeeAmount b) proportion\<rparr>
                    | Inl e \<Rightarrow> s))
            (fst (process_items b)))" for s
    proof -
      from that obtain s0 where s: "s = set_totalOwed
                   (case js_div (subtotal s0) ?T of
                      Inr proportion \<Rightarrow>
                        s0\<lparr>taxShare := js_mul (taxAmount b) proportion,
                          serviceFeeShare := js_mul (serviceFeeAmount b) proportion\<rparr>
                    | Inl e \<Rightarrow> s0)"
        by (auto simp add: process_items_total)
      from js_div_Inr [OF nz] obtain q where q: "js_div (subtotal s0) ?T = Inr q" by blast
      show ?thesis
        unfolding s q by (intro exI [of _ q]) (simp add: q)
    qed
    with calculateShares_normal [OF False gt] show ?thesis by blast
  qed
qed

theorem calculateShares_normal_case_witness:
  "js_gt (js_sum (map price (extractedItems bill_two))) (Finite 0) \<and>
   calculateShares (Some bill_two) = Inr
     [\<lparr>participantId = ''A'', participantName = ''Ann'', items = [item_nasi],
       subtotal = Finite 20000, taxShare = Finite 2000, serviceFeeShare = Finite 0,
       totalOwed = Finite 22000\<rparr>,
      \<lparr>participantId = ''B'', participantName = ''Bob'', items = [item_mie],
       subtotal = Finite 30000, taxShare = Finite 3000, serviceFeeShare = Finite 0,
       totalOwed = Finite 33000\<rparr>] \<and>
   (\<exists>shares. calculateShares (Some bill_two) = Inr shares \<and>
        list_all (\<lambda>s. \<exists>proportion.
           js_div (subtotal s) (js_sum (map price (extractedItems bill_two))) = Inr proportion \<and>
           taxShare s = js_mul (taxAmount bill_two) proportion \<and>
           serviceFeeShare s = js_mul (serviceFeeAmount bill_two) proportion \<and>
           totalOwed s = js_add (js_add (subtotal s) (taxShare s)) (serviceFeeShare s)) shares)"
proof -
  have pos: "js_gt (js_sum (map price (extractedItems bill_two))) (Finite 0)"
    by (simp add: bill_two_def item_nasi_def item_mie_def js_sum_def)
  have pre: "participants bill_two = [ann, bob] \<and> p_id ann \<noteq> [] \<and> p_id bob \<noteq> [] \<and> p_id ann \<noteq> p_id bob \<and>
    (extractedItems bill_two = [item_nasi, item_mie] \<or> extractedItems bill_two = [item_mie, item_nasi]) \<and>
    price item_nasi = Finite 20000 \<and> price item_mie = Finite 30000 \<and>
    itemAssignments bill_two (item_id item_nasi) = Some (Some (p_id ann)) \<and>
    itemAssignments bill_two (item_id item_mie) = Some (Some (p_id bob)) \<and>
    taxAmount bill_two = Finite 5000 \<and> serviceFeeAmount bill_two = Finite 0"
    by (simp add: bill_two_def ann_def bob_def item_nasi_def item_mie_def)
  from calculateShares_normal_case [of bill_two ann bob item_nasi item_mie] pre pos
  have r1: "calculateShares (Some bill_two) = Inr
          [\<lparr>participantId = p_id ann, participantName = p_name ann, items = [item_nasi],
            subtotal = Finite 20000, taxShare = Finite 2000, serviceFeeShare = Finite 0,
            totalOwed = Finite 22000\<rparr>,
           \<lparr>participantId = p_id bob, participantName = p_name bob, items = [item_mie],
            subtotal = Finite 30000, taxShare = Finite 3000, serviceFeeShare = Finite 0,
            totalOwed = Finite 33000\<rparr>]"
    and r2: "\<exists>shares. calculateShares (Some bill_two) = Inr shares \<and>
        (\<forall>s \<in> set shares. \<exists>proportion.
           js_div (subtotal s) (js_sum (map price (extractedItems bill_two))) = Inr proportion \<and>
           taxShare s = js_mul (taxAmount bill_two) proportion \<and>
           serviceFeeShare s = js_mul (serviceFeeAmount bill_two) proportion \<and>
           totalOwed s = js_add (js_add (subtotal s) (taxShare s)) (serviceFeeShare s))"
    by blast+
  from r1 have r1': "calculateShares (Some bill_two) = Inr
     [\<lparr>participantId = ''A'', participantName = ''Ann'', items = [item_nasi],
       subtotal = Finite 20000, taxShare = Finite 2000, serviceFeeShare = Finite 0,
       totalOwed = Finite 22000\<rparr>,
      \<lparr>participantId = ''B'', participantName = ''Bob'', items = [item_mie],
       subtotal = Finite 30000, taxShare = Finite 3000, serviceFeeShare = Finite 0,
       totalOwed = Finite 33000\<rparr>]"
    by (simp add: ann_def bob_def)
  from r2 have r2': "\<exists>shares. calculateShares (Some bill_two) = Inr shares \<and>
        list_all (\<lambda>s. \<exists>proportion.
           js_div (subtotal s) (js_sum (map price (extractedItems bill_two))) = Inr proportion \<and>
           taxShare s = js_mul (taxAmount bill_two) proportion \<and>
           serviceFeeShare s = js_mul (serviceFeeAmount bill_two) proportion \<and>
           totalOwed s = js_add (js_add (subtotal s) (taxShare s)) (serviceFeeShare s)) shares"
    by (simp only: list_all_iff)
  from pos r1' r2' show ?thesis by blast
qed

text \<open>
  The spec states the equality of C3 for every bill. The code rounds each addition to a
  double, and the shares add the prices in another grouping than the bill. With the
  doubles of 0.1 (assigned to A), 0.1 (to B) and 1.1 (to A) and no fees, A gets
  \<open>subtotal = 1.2000000000000002\<close> and B gets the double of 0.1: their sum differs from
  the sum of the three prices, both as exact numbers and as the doubles that JavaScript's
  \<open>+\<close> computes from them (1.3000000000000003 and 1.3).
\<close>

theorem subtotal_sum_decimal_counterexample:
  "calculateShares (Some bill_cents) =
     Inr [\<lparr>participantId = ''A'', participantName = ''Ann'', items = [item_gum, item_tea],
           subtotal = Finite (1351079888211149 / 1125899906842624),
           taxShare = Finite 0, serviceFeeShare = Finite 0,
           totalOwed = Finite (1351079888211149 / 1125899906842624)\<rparr>,
          \<lparr>participantId = ''B'', participantName = ''Bob'', items = [item_mint],
           subtotal = Finite (3602879701896397 / 36028797018963968),
           taxShare = Finite 0, serviceFeeShare = Finite 0,
           totalOwed = Finite (3602879701896397 / 36028797018963968)\<rparr>] \<and>
   map price (extractedItems bill_cents) =
     [Finite (3602879701896397 / 36028797018963968), Finite (3602879701896397 / 36028797018963968),
      Finite (2476979795053773 / 2251799813685248)] \<and>
   (1351079888211149 / 1125899906842624 + 3602879701896397 / 36028797018963968 :: real) \<noteq>
     3602879701896397 / 36028797018963968 + 3602879701896397 / 36028797018963968
       + 2476979795053773 / 2251799813685248 \<and>
   js_sum [Finite (1351079888211149 / 1125899906842624), Finite (3602879701896397 / 36028797018963968)]
     = Finite (5854679515581646 / 4503599627370496) \<and>
   js_sum (map price (extractedItems bill_cents)) = Finite (5854679515581645 / 4503599627370496)"
  by (simp add: bill_cents_def item_gum_def item_mint_def item_tea_def ann_def bob_def
      engine_defs js_sum_def fl_eval)

text \<open>
  C3 (amended). For every bill whose item prices are whole numbers with absolute values
  summing to at most \<open>2\<^sup>5\<^sup>3\<close> (so that every addition of the code is exact), the
  \<open>subtotal\<close> fields of the shares returned by \<open>calculateShares\<close> are whole numbers
  and their sum equals the sum of the prices of the items whose assignment names a
  participant of the bill; when the bill has a participant and every item is so
  assigned, it equals the sum of all item prices.
\<close>

theorem subtotal_sum_assigned:
  "(\<forall>it \<in> set (extractedItems b). is_whole (price it)) \<and>
   sum_list (map (\<lambda>it. \<bar>num_val (price it)\<bar>) (extractedItems b)) \<le> 2 ^ 53
   \<longrightarrow> (\<exists>shares. calculateShares (Some b) = Inr shares \<and>
          (\<forall>s \<in> set shares. is_whole (subtotal s)) \<and>
          sum_list (map (\<lambda>s. num_val (subtotal s)) shares) =
            sum_list (map (\<lambda>it. num_val (price it))
              (filter (\<lambda>it. \<exists>p \<in> set (participants b).
                 p_id p \<noteq> [] \<and> itemAssignments b (item_id it) = Some (Some (p_id p))) (extractedItems b))) \<and>
          (participants b \<noteq> [] \<and>
           (\<forall>it \<in> set (extractedItems b). \<exists>p \<in> set (participants b).
                 p_id p \<noteq> [] \<and> itemAssignments b (item_id it) = Some (Some (p_id p)))
           \<longrightarrow> sum_list (map (\<lambda>s. num_val (subtotal s)) shares) =
                 sum_list (map (\<lambda>it. num_val (price it)) (extractedItems b))))"
proof
  let ?assigned = "\<lambda>it. \<exists>p \<in> set (participants b).
            p_id p \<noteq> [] \<and> itemAssignments b (item_id it) = Some (Some (p_id p))"
  assume h: "(\<forall>it \<in> set (extractedItems b). is_whole (price it)) \<and>
   sum_list (map (\<lambda>it. \<bar>num_val (price it)\<bar>) (extractedItems b)) \<le> 2 ^ 53"
  then have w: "\<forall>it \<in> set (extractedItems b). is_whole (price it)"
    and le: "sum_list (map (\<lambda>it. \<bar>num_val (price it)\<bar>) (extractedItems b)) \<le> 2 ^ 53"
    by simp_all
  note pw = process_items_whole [OF w le]
  obtain shares where sh: "calculateShares (Some b) = Inr shares"
    using calculateShares_total by blast
  have "\<exists>g. shares = map g (fst (process_items b)) \<and> (\<forall>s. subtotal (g s) = subtotal s)"
    using sh
  proof (rule calculateShares_map)
    fix g
    assume "shares = map g (fst (process_items b))" and "\<And>s. subtotal (g s) = subtotal s"
    then show ?thesis by (intro exI [of _ g]) simp
  qed
  then obtain g where g: "shares = map g (fst (process_items b))"
    and gs: "\<And>s. subtotal (g s) = subtotal s"
    by blast
  from g gs have m: "map subtotal shares = map subtotal (fst (process_items b))" by simp
  have whole: "\<forall>s \<in> set shares. is_whole (subtotal s)"
    using pw(1) g gs by auto
  have "map (\<lambda>s. num_val (subtotal s)) shares = map num_val (map subtotal shares)"
    by (simp add: o_def)
  also have "\<dots> = map (\<lambda>s. num_val (subtotal s)) (fst (process_items b))"
    by (simp only: m) (simp add: o_def)
  finally have sub: "sum_list (map (\<lambda>s. num_val (subtotal s)) shares) =
      sum_list (map (\<lambda>it. num_val (price it)) (filter ?assigned (extractedItems b)))"
    using pw(2) by simp
  have "sum_list (map (\<lambda>s. num_val (subtotal s)) shares) =
      sum_list (map (\<lambda>it. num_val (price it)) (extractedItems b))"
    if "\<forall>it \<in> set (extractedItems b). ?assigned it"
  proof -
    from that have "filter ?assigned (extractedItems b) = extractedItems b"
      by (intro filter_True) simp
    with sub show ?thesis by simp
  qed
  with sh sub whole show "\<exists>shares. calculateShares (Some b) = Inr shares \<and>
          (\<forall>s \<in> set shares. is_whole (subtotal s)) \<and>
          sum_list (map (\<lambda>s. num_val (subtotal s)) shares) =
            sum_list (map (\<lambda>it. num_val (price it)) (filter ?assigned (extractedItems b))) \<and>
          (participants b \<noteq> [] \<and> (\<forall>it \<in> set (extractedItems b). ?assigned it)
           \<longrightarrow> sum_list (map (\<lambda>s. num_val (subtotal s)) shares) =
                 sum_list (map (\<lambda>it. num_val (price it)) (extractedItems b)))"
    by blast
qed

theorem subtotal_sum_assigned_witness:
  "\<exists>shares. calculateShares (Some bill_two) = Inr shares \<and>
     list_all (\<lambda>s. is_whole (subtotal s)) shares \<and>
     sum_list (map (\<lambda>s. num_val (subtotal s)) shares) = 50000"
  using subtotal_sum_assigned [of bill_two]
  by (simp add: bill_two_def ann_def bob_def item_nasi_def item_mie_def list_all_iff)



text \<open>
  C5. \<open>handleViewSummary\<close> clears the messages and sets the step to
  \<open>VIEW_SUMMARY\<close> if and only if there is an in-progress bill with at least one
  participant, at least one item, and for every item an assignment that holds a
  (non-empty) participant id. Otherwise the step and the bill stay as they were and an
  error message is set: one message per violated gate, the four pairwise distinct, the
  last carrying the number of unassigned items.
\<close>

theorem handleViewSummary_gates:
  "(handleViewSummary s = (clearMessages s)\<lparr>appStep := VIEW_SUMMARY\<rparr>) =
     (\<exists>b. currentBill s = Some b \<and> participants b \<noteq> [] \<and> extractedItems b \<noteq> [] \<and>
          (\<forall>item \<in> set (extractedItems b).
              \<exists>p. itemAssignments b (item_id item) = Some (Some p) \<and> p \<noteq> []))
   \<and> (handleViewSummary s \<noteq> (clearMessages s)\<lparr>appStep := VIEW_SUMMARY\<rparr> \<longrightarrow>
        appStep (handleViewSummary s) = appStep s \<and>
        currentBill (handleViewSummary s) = currentBill s \<and>
        errorMessage (handleViewSummary s) \<noteq> [])
   \<and> (currentBill s = None \<longrightarrow>
        errorMessage (handleViewSummary s) = ''No bill data available.'')
   \<and> (\<forall>b. currentBill s = Some b \<and> participants b = [] \<longrightarrow>
        errorMessage (handleViewSummary s) = ''Please add participants before viewing summary.'')
   \<and> (\<forall>b. currentBill s = Some b \<and> participants b \<noteq> [] \<and> extractedItems b = [] \<longrightarrow>
        errorMessage (handleViewSummary s) = ''Please add items to the bill.'')
   \<and> (\<forall>b. currentBill s = Some b \<and> participants b \<noteq> [] \<and> extractedItems b \<noteq> [] \<and>
          \<not> (\<forall>item \<in> set (extractedItems b).
              \<exists>p. itemAssignments b (item_id item) = Some (Some p) \<and> p \<noteq> []) \<longrightarrow>
        errorMessage (handleViewSummary s) =
          ''Please assign all items. ''
          @ string_of_nat (length (filter
               (\<lambda>item. \<not> (\<exists>p. itemAssignments b (item_id item) = Some (Some p) \<and> p \<noteq> []))
               (extractedItems b)))
          @ '' item(s) are unassigned.'')
   \<and> distinct [''No bill data available.'',
                ''Please add participants before viewing summary.'',
                ''Please add items to the bill.'',
                ''Please assign all items. '' @ string_of_nat n @ '' item(s) are unassigned.'']"
proof -
  let ?ok = "(clearMessages s)\<lparr>appStep := VIEW_SUMMARY\<rparr>"
  let ?gates = "\<exists>b. currentBill s = Some b \<and> participants b \<noteq> [] \<and> extractedItems b \<noteq> [] \<and>
          (\<forall>item \<in> set (extractedItems b).
              \<exists>p. itemAssignments b (item_id item) = Some (Some p) \<and> p \<noteq> [])"
  have m1: "currentBill s = None \<longrightarrow>
        errorMessage (handleViewSummary s) = ''No bill data available.''"
    by (simp add: handleViewSummary_no_bill)
  have m2: "\<forall>b. currentBill s = Some b \<and> participants b = [] \<longrightarrow>
        errorMessage (handleViewSummary s) = ''Please add participants before viewing summary.''"
    by (simp add: handleViewSummary_no_participants)
  have m3: "\<forall>b. currentBill s = Some b \<and> participants b \<noteq> [] \<and> extractedItems b = [] \<longrightarrow>
        errorMessage (handleViewSummary s) = ''Please add items to the bill.''"
    by (simp add: handleViewSummary_no_items)
  have m4: "\<forall>b. currentBill s = Some b \<and> participants b \<noteq> [] \<and> extractedItems b \<noteq> [] \<and>
          \<not> (\<forall>item \<in> set (extractedItems b).
              \<exists>p. itemAssignments b (item_id item) = Some (Some p) \<and> p \<noteq> []) \<longrightarrow>
        errorMessage (handleViewSummary s) =
          ''Please assign all items. ''
          @ string_of_nat (length (filter
               (\<lambda>item. \<not> (\<exists>p. itemAssignments b (item_id item) = Some (Some p) \<and> p \<noteq> []))
               (extractedItems b)))
          @ '' item(s) are unassigned.''"
  proof (intro allI impI)
    fix b
    assume h: "currentBill s = Some b \<and> participants b \<noteq> [] \<and> extractedItems b \<noteq> [] \<and>
          \<not> (\<forall>item \<in> set (extractedItems b).
              \<exists>p. itemAssignments b (item_id item) = Some (Some p) \<and> p \<noteq> [])"
    then have "\<not> (\<forall>item \<in> set (extractedItems b).
              \<exists>p. itemAssignments b (item_id item) = Some (Some p) \<and> p \<noteq> [])"
      by blast
    then have "unassignedItems b \<noteq> []" unfolding unassignedItems_empty_iff .
    with h have "handleViewSummary s =
       (clearMessages s)\<lparr>errorMessage := ''Please assign all items. ''
           @ string_of_nat (length (unassignedItems b)) @ '' item(s) are unassigned.''\<rparr>"
      by (intro handleViewSummary_unassigned) simp_all
    then show "errorMessage (handleViewSummary s) =
          ''Please assign all items. ''
          @ string_of_nat (length (filter
               (\<lambda>item. \<not> (\<exists>p. itemAssignments b (item_id item) = Some (Some p) \<and> p \<noteq> []))
               (extractedItems b)))
          @ '' item(s) are unassigned.''"
      by (simp add: unassignedItems_eq)
  qed
  have fail: "appStep (handleViewSummary s) = appStep s \<and>
        currentBill (handleViewSummary s) = currentBill s \<and>
        errorMessage (handleViewSummary s) \<noteq> [] \<and> handleViewSummary s \<noteq> ?ok" if "\<not> ?gates"
  proof (cases "currentBill s")
    case None
    then show ?thesis
      by (simp add: handleViewSummary_no_bill error_state_differs)
  next
    case (Some b)
    show ?thesis
    proof (cases "participants b = []")
      case True
      with Some show ?thesis
        by (simp add: handleViewSummary_no_participants error_state_differs)
    next
      case ps: False
      show ?thesis
      proof (cases "extractedItems b = []")
        case True
        with Some ps show ?thesis
          by (simp add: handleViewSummary_no_items error_state_differs)
      next
        case False
        with that Some ps have "unassignedItems b \<noteq> []"
          by (simp add: unassignedItems_empty_iff)
        with Some ps False show ?thesis
          by (simp add: handleViewSummary_unassigned error_state_differs)
      qed
    qed
  qed
  have pass: "handleViewSummary s = ?ok" if ?gates
  proof -
    from that obtain b where "currentBill s = Some b" "participants b \<noteq> []" "extractedItems b \<noteq> []"
      "unassignedItems b = []"
      by (auto simp add: unassignedItems_empty_iff)
    then show ?thesis by (rule handleViewSummary_ok)
  qed
  have iff: "(handleViewSummary s = ?ok) = ?gates"
    using pass fail by blast
  have unchanged: "handleViewSummary s \<noteq> ?ok \<longrightarrow>
        appStep (handleViewSummary s) = appStep s \<and>
        currentBill (handleViewSummary s) = currentBill s \<and>
        errorMessage (handleViewSummary s) \<noteq> []"
    using pass fail by blast
  have dist: "distinct [''No bill data available.'',
                ''Please add participants before viewing summary.'',
                ''Please add items to the bill.'',
                ''Please assign all items. '' @ string_of_nat n @ '' item(s) are unassigned.'']"
    by simp
  from iff unchanged m1 m2 m3 m4 dist show ?thesis by blast
qed

theorem handleViewSummary_gates_witness:
  "handleViewSummary (editing bill_two) = (clearMessages (editing bill_two))\<lparr>appStep := VIEW_SUMMARY\<rparr> \<and>
   appStep (handleViewSummary (editing bill_two)) = VIEW_SUMMARY \<and>
   appStep (handleViewSummary (editing bill_half_assigned)) = EDIT_BILL_DETAILS \<and>
   currentBill (handleViewSummary (editing bill_half_assigned)) = Some bill_half_assigned \<and>
   errorMessage (handleViewSummary (editing bill_half_assigned)) =
     ''Please assign all items. 1 item(s) are unassigned.''"
proof -
  have two: "\<exists>b. currentBill (editing bill_two) = Some b \<and> participants b \<noteq> [] \<and> extractedItems b \<noteq> [] \<and>
          (\<forall>item \<in> set (extractedItems b).
              \<exists>p. itemAssignments b (item_id item) = Some (Some p) \<and> p \<noteq> [])"
    by (simp add: editing_def bill_two_def item_nasi_def item_mie_def)
  with handleViewSummary_gates [of "editing bill_two" 0]
  have ok: "handleViewSummary (editing bill_two) = (clearMessages (editing bill_two))\<lparr>appStep := VIEW_SUMMARY\<rparr>"
    by blast
  then have step: "appStep (handleViewSummary (editing bill_two)) = VIEW_SUMMARY" by simp
  have half: "currentBill (editing bill_half_assigned) = Some bill_half_assigned \<and>
      participants bill_half_assigned \<noteq> [] \<and> extractedItems bill_half_assigned \<noteq> [] \<and>
      \<not> (\<forall>item \<in> set (extractedItems bill_half_assigned).
              \<exists>p. itemAssignments bill_half_assigned (item_id item) = Some (Some p) \<and> p \<noteq> [])"
    by (simp add: editing_def bill_half_assigned_def item_nasi_def item_mie_def)
  have cnt: "length (filter
               (\<lambda>item. \<not> (\<exists>p. itemAssignments bill_half_assigned (item_id item) = Some (Some p) \<and> p \<noteq> []))
               (extractedItems bill_half_assigned)) = 1"
    by (simp add: bill_half_assigned_def item_nasi_def item_mie_def)
  from handleViewSummary_gates [of "editing bill_half_assigned" 0] half
  have msg: "errorMessage (handleViewSummary (editing bill_half_assigned)) =
          ''Please assign all items. ''
          @ string_of_nat (length (filter
               (\<lambda>item. \<not> (\<exists>p. itemAssignments bill_half_assigned (item_id item) = Some (Some p) \<and> p \<noteq> []))
               (extractedItems bill_half_assigned)))
          @ '' item(s) are unassigned.''"
    by blast
  from handleViewSummary_gates [of "editing bill_half_assigned" 0] half
  have "handleViewSummary (editing bill_half_assigned)
          \<noteq> (clearMessages (editing bill_half_assigned))\<lparr>appStep := VIEW_SUMMARY\<rparr>"
    by (metis option.inject)
  with handleViewSummary_gates [of "editing bill_half_assigned" 0]
  have same: "appStep (handleViewSummary (editing bill_half_assigned)) = appStep (editing bill_half_assigned) \<and>
        currentBill (handleViewSummary (editing bill_half_assigned)) = currentBill (editing bill_half_assigned)"
    by blast
  from msg have msg1: "errorMessage (handleViewSummary (editing bill_half_assigned)) =
          ''Please assign all items. 1 item(s) are unassigned.''"
    by (simp only: cnt string_of_nat_1) simp
  from same have same1: "appStep (handleViewSummary (editing bill_half_assigned)) = EDIT_BILL_DETAILS"
    "currentBill (handleViewSummary (editing bill_half_assigned)) = Some bill_half_assigned"
    by (simp_all add: editing_def)
  from ok step msg1 same1 show ?thesis by blast
qed

text \<open>
  C6. Removing participant \<open>p\<close> from the in-progress bill gives a bill in which no
  assignment maps an item to \<open>p\<close>: the entries that named \<open>p\<close> are gone (the item
  is unassigned), every other entry is as before, the item list is unchanged, and
  \<open>p\<close> is no longer a participant. If every assignment named a participant of the
  bill before, so it does afterwards. Without an in-progress bill nothing changes.
\<close>

theorem handleRemoveParticipant_clears_assignments:
  "(currentBill s = None \<longrightarrow> handleRemoveParticipant p s = s) \<and>
   (currentBill s = Some b \<longrightarrow>
     (\<exists>b'. handleRemoveParticipant p s = s\<lparr>currentBill := Some b'\<rparr> \<and>
        (\<forall>itemId. itemAssignments b' itemId \<noteq> Some (Some p)) \<and>
        (\<forall>itemId. itemAssignments b itemId = Some (Some p) \<longrightarrow> itemAssignments b' itemId = None) \<and>
        (\<forall>itemId. itemAssignments b itemId \<noteq> Some (Some p)
             \<longrightarrow> itemAssignments b' itemId = itemAssignments b itemId) \<and>
        extractedItems b' = extractedItems b \<and>
        participants b' = filter (\<lambda>q. p_id q \<noteq> p) (participants b) \<and>
        p \<notin> set (map p_id (participants b')) \<and>
        ((\<forall>itemId q. itemAssignments b itemId = Some (Some q) \<longrightarrow> q \<in> set (map p_id (participants b)))
           \<longrightarrow> (\<forall>itemId q. itemAssignments b' itemId = Some (Some q)
                   \<longrightarrow> q \<in> set (map p_id (participants b'))))))"
proof (intro conjI impI)
  assume "currentBill s = None"
  then show "handleRemoveParticipant p s = s"
    by (simp add: handleRemoveParticipant_def)
next
  assume cb: "currentBill s = Some b"
  let ?b' = "b\<lparr>participants := filter (\<lambda>q. p_id q \<noteq> p) (participants b),
               itemAssignments := remove_assignments_to p (itemAssignments b)\<rparr>"
  from cb have "handleRemoveParticipant p s = s\<lparr>currentBill := Some ?b'\<rparr>"
    by (simp add: handleRemoveParticipant_def)
  moreover have "\<forall>itemId. itemAssignments ?b' itemId \<noteq> Some (Some p)"
    by (simp add: remove_assignments_to_cases)
  moreover have "\<forall>itemId. itemAssignments b itemId = Some (Some p) \<longrightarrow> itemAssignments ?b' itemId = None"
    by (simp add: remove_assignments_to_cases)
  moreover have "\<forall>itemId. itemAssignments b itemId \<noteq> Some (Some p)
             \<longrightarrow> itemAssignments ?b' itemId = itemAssignments b itemId"
    by (simp add: remove_assignments_to_cases)
  moreover have "extractedItems ?b' = extractedItems b" by simp
  moreover have "participants ?b' = filter (\<lambda>q. p_id q \<noteq> p) (participants b)" by simp
  moreover have "p \<notin> set (map p_id (participants ?b'))" by auto
  moreover have "(\<forall>itemId q. itemAssignments b itemId = Some (Some q) \<longrightarrow> q \<in> set (map p_id (participants b)))
           \<longrightarrow> (\<forall>itemId q. itemAssignments ?b' itemId = Some (Some q)
                   \<longrightarrow> q \<in> set (map p_id (participants ?b')))"
  proof (intro impI allI)
    fix itemId q
    assume inv: "\<forall>itemId q. itemAssignments b itemId = Some (Some q) \<longrightarrow> q \<in> set (map p_id (participants b))"
      and "itemAssignments ?b' itemId = Some (Some q)"
    then have "itemAssignments b itemId = Some (Some q)" and "q \<noteq> p"
      by (auto simp add: remove_assignments_to_cases split: if_splits)
    with inv have "q \<in> set (map p_id (participants b))" by blast
    with \<open>q \<noteq> p\<close> show "q \<in> set (map p_id (participants ?b'))" by auto
  qed
  ultimately show "\<exists>b'. handleRemoveParticipant p s = s\<lparr>currentBill := Some b'\<rparr> \<and>
        (\<forall>itemId. itemAssignments b' itemId \<noteq> Some (Some p)) \<and>
        (\<forall>itemId. itemAssignments b itemId = Some (Some p) \<longrightarrow> itemAssignments b' itemId = None) \<and>
        (\<forall>itemId. itemAssignments b itemId \<noteq> Some (Some p)
             \<longrightarrow> itemAssignments b' itemId = itemAssignments b itemId) \<and>
        extractedItems b' = extractedItems b \<and>
        participants b' = filter (\<lambda>q. p_id q \<noteq> p) (participants b) \<and>
        p \<notin> set (map p_id (participants b')) \<and>
        ((\<forall>itemId q. itemAssignments b itemId = Some (Some q) \<longrightarrow> q \<in> set (map p_id (participants b)))
           \<longrightarrow> (\<forall>itemId q. itemAssignments b' itemId = Some (Some q)
                   \<longrightarrow> q \<in> set (map p_id (participants b'))))"
    by blast
qed

theorem handleRemoveParticipant_clears_assignments_witness:
  "\<exists>b'. currentBill (handleRemoveParticipant ''A'' (editing bill_two)) = Some b' \<and>
      itemAssignments bill_two ''i1'' = Some (Some ''A'') \<and>
      itemAssignments b' ''i1'' = None \<and>
      itemAssignments b' ''i2'' = Some (Some ''B'') \<and>
      extractedItems b' = [item_nasi, item_mie] \<and>
      participants b' = [bob]"
proof -
  have cb: "currentBill (editing bill_two) = Some bill_two"
    by (simp add: editing_def)
  with handleRemoveParticipant_clears_assignments [of "editing bill_two" "''A''" bill_two]
  obtain b' where upd: "handleRemoveParticipant ''A'' (editing bill_two) = (editing bill_two)\<lparr>currentBill := Some b'\<rparr>"
    and gone: "\<forall>itemId. itemAssignments bill_two itemId = Some (Some ''A'') \<longrightarrow> itemAssignments b' itemId = None"
    and kept: "\<forall>itemId. itemAssignments bill_two itemId \<noteq> Some (Some ''A'')
             \<longrightarrow> itemAssignments b' itemId = itemAssignments bill_two itemId"
    and its: "extractedItems b' = extractedItems bill_two"
    and ps: "participants b' = filter (\<lambda>q. p_id q \<noteq> ''A'') (participants bill_two)"
    by blast
  have a1: "itemAssignments bill_two ''i1'' = Some (Some ''A'')"
    and a2: "itemAssignments bill_two ''i2'' = Some (Some ''B'')"
    by (simp_all add: bill_two_def)
  from gone a1 have "itemAssignments b' ''i1'' = None" by blast
  moreover from kept a2 have "itemAssignments b' ''i2'' = Some (Some ''B'')" by simp
  moreover from its have "extractedItems b' = [item_nasi, item_mie]" by (simp add: bill_two_def)
  moreover from ps have "participants b' = [bob]" by (simp add: bill_two_def ann_def bob_def)
  moreover from upd have "currentBill (handleRemoveParticipant ''A'' (editing bill_two)) = Some b'" by simp
  ultimately show ?thesis using a1 by blast
qed

text \<open>
  C7. \<open>handleSaveBill\<close> on an in-progress bill \<open>b\<close> takes the result of
  \<open>calculateShares\<close> on \<open>b\<close>, stores \<open>b\<close> with that result as
  \<open>calculatedShares\<close> at the front of the list loaded from the history store (the new
  history, and the new stored list unless the write throws), sets the in-progress bill
  to none and the step to \<open>UPLOAD_RECEIPT\<close>. Afterwards the shares are read, not
  recomputed: viewing the saved bill from any state whose history starts with it renders
  the frozen shares, whatever the in-progress bill is then, and deleting a bill only
  drops entries of the stored list. Without an in-progress bill only the messages are
  cleared.
\<close>

theorem handleSaveBill_freezes_shares:
  "(currentBill s = None \<longrightarrow> handleSaveBill (s, st) = Inr (clearMessages s, st)) \<and>
   (currentBill s = Some b \<longrightarrow>
     (\<exists>finalShares. calculateShares (Some b) = Inr finalShares \<and>
        handleSaveBill (s, st) =
          Inr (s\<lparr>errorMessage := [], successMessage := ''Bill saved successfully!'',
                  historicalBills := billToSave b finalShares # loadBillsFromStorage st,
                  currentBill := None, appStep := UPLOAD_RECEIPT\<rparr>,
               saveBillsToStorage (billToSave b finalShares # loadBillsFromStorage st) st) \<and>
        calculatedShares (billToSave b finalShares) = Some finalShares \<and>
        BillSession.truncate (billToSave b finalShares) = b \<and>
        (\<not> setItem_throws st \<longrightarrow>
           stored_bills (saveBillsToStorage (billToSave b finalShares # loadBillsFromStorage st) st)
             = Parsed (billToSave b finalShares # loadBillsFromStorage st)) \<and>
        (\<forall>(t::AppState) rest. historicalBills t = billToSave b finalShares # rest \<longrightarrow>
           viewingBillDetails (viewBillFromHistory (bill_id b) t) = Some (billToSave b finalShares) \<and>
           summaryShares (viewBillFromHistory (bill_id b) t) = Inr finalShares)))
   \<and> set (historicalBills (fst (handleDeleteBill i w))) \<subseteq> set (loadBillsFromStorage (snd w))"
proof (intro conjI impI)
  assume "currentBill s = None"
  then show "handleSaveBill (s, st) = Inr (clearMessages s, st)"
    by (rule handleSaveBill_no_bill)
next
  assume cb: "currentBill s = Some b"
  obtain finalShares where fs: "calculateShares (Some b) = Inr finalShares"
    using calculateShares_total by blast
  let ?saved = "billToSave b finalShares"
  note handleSaveBill_Some [OF cb fs, of st]
  moreover have "calculatedShares ?saved = Some finalShares" by simp
  moreover have "BillSession.truncate ?saved = b" by (rule billToSave_truncate)
  moreover have "\<not> setItem_throws st \<longrightarrow>
           stored_bills (saveBillsToStorage (?saved # loadBillsFromStorage st) st)
             = Parsed (?saved # loadBillsFromStorage st)"
    by (simp add: saveBillsToStorage_def)
  moreover have "\<forall>(t::AppState) rest. historicalBills t = ?saved # rest \<longrightarrow>
           viewingBillDetails (viewBillFromHistory (bill_id b) t) = Some ?saved \<and>
           summaryShares (viewBillFromHistory (bill_id b) t) = Inr finalShares"
  proof (intro allI impI)
    fix t :: AppState and rest
    assume "historicalBills t = ?saved # rest"
    then have "viewBillFromHistory (bill_id b) t
                 = (clearMessages t)\<lparr>viewingBillDetails := Some ?saved, appStep := VIEW_SUMMARY\<rparr>"
      by (rule viewBillFromHistory_head) simp
    then show "viewingBillDetails (viewBillFromHistory (bill_id b) t) = Some ?saved \<and>
           summaryShares (viewBillFromHistory (bill_id b) t) = Inr finalShares"
      by (simp add: summaryShares_def)
  qed
  ultimately show "\<exists>finalShares. calculateShares (Some b) = Inr finalShares \<and>
        handleSaveBill (s, st) =
          Inr (s\<lparr>errorMessage := [], successMessage := ''Bill saved successfully!'',
                  historicalBills := billToSave b finalShares # loadBillsFromStorage st,
                  currentBill := None, appStep := UPLOAD_RECEIPT\<rparr>,
               saveBillsToStorage (billToSave b finalShares # loadBillsFromStorage st) st) \<and>
        calculatedShares (billToSave b finalShares) = Some finalShares \<and>
        BillSession.truncate (billToSave b finalShares) = b \<and>
        (\<not> setItem_throws st \<longrightarrow>
           stored_bills (saveBillsToStorage (billToSave b finalShares # loadBillsFromStorage st) st)
             = Parsed (billToSave b finalShares # loadBillsFromStorage st)) \<and>
        (\<forall>(t::AppState) rest. historicalBills t = billToSave b finalShares # rest \<longrightarrow>
           viewingBillDetails (viewBillFromHistory (bill_id b) t) = Some (billToSave b finalShares) \<and>
           summaryShares (viewBillFromHistory (bill_id b) t) = Inr finalShares)"
    using fs by blast
next
  show "set (historicalBills (fst (handleDeleteBill i w))) \<subseteq> set (loadBillsFromStorage (snd w))"
    by (simp add: handleDeleteBill_history)
qed

theorem handleSaveBill_freezes_shares_witness:
  "\<exists>s' st'. handleSaveBill (handleViewSummary (editing bill_two), storage_one) = Inr (s', st') \<and>
      currentBill s' = None \<and> appStep s' = UPLOAD_RECEIPT \<and>
      historicalBills s' = [billToSave bill_two shares_two, stored_unassigned] \<and>
      stored_bills st' = Parsed [billToSave bill_two shares_two, stored_unassigned] \<and>
      summaryShares (viewBillFromHistory ''bill-1'' s') = Inr shares_two"
proof -
  let ?s = "handleViewSummary (editing bill_two)"
  from handleSaveBill_freezes_shares [of ?s storage_one bill_two] currentBill_summary_two
  obtain finalShares where fs: "calculateShares (Some bill_two) = Inr finalShares"
    and saved: "handleSaveBill (?s, storage_one) =
          Inr (?s\<lparr>errorMessage := [], successMessage := ''Bill saved successfully!'',
                  historicalBills := billToSave bill_two finalShares # loadBillsFromStorage storage_one,
                  currentBill := None, appStep := UPLOAD_RECEIPT\<rparr>,
               saveBillsToStorage (billToSave bill_two finalShares # loadBillsFromStorage storage_one) storage_one)"
    and written: "\<not> setItem_throws storage_one \<longrightarrow>
           stored_bills (saveBillsToStorage (billToSave bill_two finalShares # loadBillsFromStorage storage_one) storage_one)
             = Parsed (billToSave bill_two finalShares # loadBillsFromStorage storage_one)"
    and view: "\<forall>(t::AppState) rest. historicalBills t = billToSave bill_two finalShares # rest \<longrightarrow>
           viewingBillDetails (viewBillFromHistory (bill_id bill_two) t) = Some (billToSave bill_two finalShares) \<and>
           summaryShares (viewBillFromHistory (bill_id bill_two) t) = Inr finalShares"
    by blast
  from fs have eq: "finalShares = shares_two" by (simp add: calculateShares_bill_two)
  have load: "loadBillsFromStorage storage_one = [stored_unassigned]"
    by (simp add: loadBillsFromStorage_def storage_one_def)
  have bid: "bill_id bill_two = ''bill-1''" by (simp add: bill_two_def)
  let ?s' = "?s\<lparr>errorMessage := [], successMessage := ''Bill saved successfully!'',
                  historicalBills := [billToSave bill_two shares_two, stored_unassigned],
                  currentBill := None, appStep := UPLOAD_RECEIPT\<rparr>"
  let ?st' = "saveBillsToStorage [billToSave bill_two shares_two, stored_unassigned] storage_one"
  from saved have "handleSaveBill (?s, storage_one) = Inr (?s', ?st')"
    by (simp only: eq load)
  moreover have "currentBill ?s' = None" and "appStep ?s' = UPLOAD_RECEIPT"
    and "historicalBills ?s' = [billToSave bill_two shares_two, stored_unassigned]"
    by simp_all
  moreover from written have "stored_bills ?st' = Parsed [billToSave bill_two shares_two, stored_unassigned]"
    by (simp only: eq load) (simp add: storage_one_def)
  moreover from view have "summaryShares (viewBillFromHistory ''bill-1'' ?s') = Inr shares_two"
    by (simp only: eq bid) simp
  ultimately show ?thesis by blast
qed

text \<open>
  The spec states for C8 that every share is zero in all its fields. Prices may be
  negative (a discount line), so the prices can sum to 0 while shares have non-zero
  subtotals: an item priced 10 assigned to A and an item priced -10 assigned to B, with
  no tax and no service fee, give A \<open>subtotal = totalOwed = 10\<close> and B
  \<open>subtotal = totalOwed = -10\<close>.
\<close>

theorem no_fees_share_counterexample:
  "js_sum (map price (extractedItems bill_offsetting)) = Finite 0 \<and>
   taxAmount bill_offsetting = Finite 0 \<and> serviceFeeAmount bill_offsetting = Finite 0 \<and>
   calculateShares (Some bill_offsetting) =
     Inr [\<lparr>participantId = ''A'', participantName = ''Ann'', items = [item_promo],
           subtotal = Finite 10, taxShare = Finite 0, serviceFeeShare = Finite 0,
           totalOwed = Finite 10\<rparr>,
          \<lparr>participantId = ''B'', participantName = ''Bob'', items = [item_discount],
           subtotal = Finite (- 10), taxShare = Finite 0, serviceFeeShare = Finite 0,
           totalOwed = Finite (- 10)\<rparr>]"
  by (simp add: bill_offsetting_def item_promo_def item_discount_def ann_def bob_def
      engine_defs js_sum_def)

text \<open>
  C8 (amended). For every bill whose running total of the item prices is 0
  (\<open>totalBillSubtotal === 0\<close>) and whose \<open>taxAmount\<close> and \<open>serviceFeeAmount\<close> are
  both 0, \<open>calculateShares\<close> returns normally (no division by zero: the result is
  \<open>Inr\<close>), and every share has \<open>taxShare = serviceFeeShare = 0\<close> and
  \<open>totalOwed = subtotal\<close>; when moreover no item price is negative, every share has
  \<open>subtotal = totalOwed = 0\<close> too.
\<close>

theorem no_fees_when_nothing_to_split:
  "js_sum (map price (extractedItems b)) = Finite 0 \<and>
   taxAmount b = Finite 0 \<and> serviceFeeAmount b = Finite 0
   \<longrightarrow> (\<exists>shares. calculateShares (Some b) = Inr shares \<and>
          (\<forall>s \<in> set shares. taxShare s = Finite 0 \<and> serviceFeeShare s = Finite 0 \<and>
                             totalOwed s = subtotal s) \<and>
          ((\<forall>it \<in> set (extractedItems b). \<exists>p. price it = Finite p \<and> 0 \<le> p \<and> is_double p)
             \<longrightarrow> (\<forall>s \<in> set shares. subtotal s = Finite 0 \<and> totalOwed s = Finite 0)))"
proof
  assume h: "js_sum (map price (extractedItems b)) = Finite 0 \<and>
   taxAmount b = Finite 0 \<and> serviceFeeAmount b = Finite 0"
  show "\<exists>shares. calculateShares (Some b) = Inr shares \<and>
          (\<forall>s \<in> set shares. taxShare s = Finite 0 \<and> serviceFeeShare s = Finite 0 \<and>
                             totalOwed s = subtotal s) \<and>
          ((\<forall>it \<in> set (extractedItems b). \<exists>p. price it = Finite p \<and> 0 \<le> p \<and> is_double p)
             \<longrightarrow> (\<forall>s \<in> set shares. subtotal s = Finite 0 \<and> totalOwed s = Finite 0))"
  proof (cases "participants b = []")
    case True
    then show ?thesis by (simp add: calculateShares_no_participants)
  next
    case False
    from h have "\<not> js_gt (snd (process_items b)) (Finite 0)"
      and "snd (process_items b) = Finite 0
         \<longrightarrow> \<not> (js_gt (taxAmount b) (Finite 0) \<or> js_gt (serviceFeeAmount b) (Finite 0))"
      by (simp_all add: process_items_total)
    from calculateShares_no_fees [OF False this]
    have sh: "calculateShares (Some b) = Inr (map set_totalOwed (fst (process_items b)))" .
    have fees: "\<forall>s \<in> set (map set_totalOwed (fst (process_items b))).
                  taxShare s = Finite 0 \<and> serviceFeeShare s = Finite 0 \<and> totalOwed s = subtotal s"
      by (auto simp add: process_items_share_fees js_add_zero process_items_share_valid)
    have zero: "\<forall>s \<in> set (map set_totalOwed (fst (process_items b))).
                  subtotal s = Finite 0 \<and> totalOwed s = Finite 0"
      if nonneg: "\<forall>it \<in> set (extractedItems b). \<exists>p. price it = Finite p \<and> 0 \<le> p \<and> is_double p"
    proof -
      from nonneg have "\<forall>x \<in> set (map price (extractedItems b)). \<exists>p. x = Finite p \<and> 0 \<le> p \<and> is_double p"
        by auto
      from js_sum_nonneg_zero [OF this] h
      have free: "\<forall>it \<in> set (extractedItems b). price it = Finite 0" by simp
      have "subtotal s = Finite 0" if "s \<in> set (fst (process_items b))" for s
      proof -
        from process_items_share_items [OF that] free
        have "\<forall>x \<in> set (map price (items s)). x = Finite 0" by auto
        then have "js_sum (map price (items s)) = Finite 0" by (rule js_sum_zeros)
        with process_items_inv [OF that] show ?thesis by simp
      qed
      with fees show ?thesis by auto
    qed
    from sh fees zero show ?thesis by blast
  qed
qed

theorem no_fees_when_nothing_to_split_witness:
  "js_sum (map price (extractedItems bill_all_free)) = Finite 0 \<and>
   (\<exists>shares. calculateShares (Some bill_all_free) = Inr shares \<and> length shares = 2 \<and>
      list_all (\<lambda>s. subtotal s = Finite 0 \<and> taxShare s = Finite 0 \<and>
                    serviceFeeShare s = Finite 0 \<and> totalOwed s = Finite 0) shares)"
proof -
  have pre: "js_sum (map price (extractedItems bill_all_free)) = Finite 0 \<and>
     taxAmount bill_all_free = Finite 0 \<and> serviceFeeAmount bill_all_free = Finite 0"
    by (simp add: bill_all_free_def item_free_def js_sum_def)
  have nonneg: "\<forall>it \<in> set (extractedItems bill_all_free). \<exists>p. price it = Finite p \<and> 0 \<le> p \<and> is_double p"
    by (simp add: bill_all_free_def item_free_def is_double_def)
  from no_fees_when_nothing_to_split [of bill_all_free] pre nonneg
  obtain shares where sh: "calculateShares (Some bill_all_free) = Inr shares"
    and fees: "\<forall>s \<in> set shares. taxShare s = Finite 0 \<and> serviceFeeShare s = Finite 0 \<and> totalOwed s = subtotal s"
    and zero: "\<forall>s \<in> set shares. subtotal s = Finite 0 \<and> totalOwed s = Finite 0"
    by blast
  from calculateShares_length [OF sh] have "length shares = 2" by (simp add: bill_all_free_def)
  with sh fees zero have "\<exists>shares. calculateShares (Some bill_all_free) = Inr shares \<and> length shares = 2 \<and>
      list_all (\<lambda>s. subtotal s = Finite 0 \<and> taxShare s = Finite 0 \<and>
                    serviceFeeShare s = Finite 0 \<and> totalOwed s = Finite 0) shares"
    by (auto simp add: list_all_iff)
  with pre show ?thesis by auto
qed

text \<open>
  C9. For every bill whose running total \<open>totalBillSubtotal\<close> of the item prices is
  negative, \<open>calculateShares\<close> distributes no fees, whatever \<open>taxAmount\<close> and
  \<open>serviceFeeAmount\<close> are: every share has \<open>taxShare = 0\<close>,
  \<open>serviceFeeShare = 0\<close> and \<open>totalOwed = subtotal\<close>.
\<close>

theorem no_fees_for_negative_subtotal:
  "js_gt (Finite 0) (js_sum (map price (extractedItems b)))
   \<longrightarrow> (\<exists>shares. calculateShares (Some b) = Inr shares \<and>
          (\<forall>s \<in> set shares. taxShare s = Finite 0 \<and> serviceFeeShare s = Finite 0 \<and>
                             totalOwed s = subtotal s))"
proof
  assume neg: "js_gt (Finite 0) (js_sum (map price (extractedItems b)))"
  show "\<exists>shares. calculateShares (Some b) = Inr shares \<and>
          (\<forall>s \<in> set shares. taxShare s = Finite 0 \<and> serviceFeeShare s = Finite 0 \<and>
                             totalOwed s = subtotal s)"
  proof (cases "participants b = []")
    case True
    then show ?thesis by (simp add: calculateShares_no_participants)
  next
    case False
    from neg have "\<not> js_gt (snd (process_items b)) (Finite 0)"
      and "snd (process_items b) = Finite 0
         \<longrightarrow> \<not> (js_gt (taxAmount b) (Finite 0) \<or> js_gt (serviceFeeAmount b) (Finite 0))"
      by (cases "js_sum (map price (extractedItems b))"; simp add: process_items_total)+
    from calculateShares_no_fees [OF False this]
    show ?thesis
      by (auto simp add: process_items_share_fees js_add_zero process_items_share_valid)
  qed
qed

theorem no_fees_for_negative_subtotal_witness:
  "js_gt (Finite 0) (js_sum (map price (extractedItems bill_refund))) \<and>
   js_gt (taxAmount bill_refund) (Finite 0) \<and> js_gt (serviceFeeAmount bill_refund) (Finite 0) \<and>
   (\<exists>shares. calculateShares (Some bill_refund) = Inr shares \<and> length shares = 2 \<and>
      list_all (\<lambda>s. taxShare s = Finite 0 \<and> serviceFeeShare s = Finite 0 \<and> totalOwed s = subtotal s) shares)"
proof -
  have pre: "js_gt (Finite 0) (js_sum (map price (extractedItems bill_refund)))"
    and fees: "js_gt (taxAmount bill_refund) (Finite 0)" "js_gt (serviceFeeAmount bill_refund) (Finite 0)"
    by (simp_all add: bill_refund_def item_discount_def js_sum_def)
  from no_fees_for_negative_subtotal [of bill_refund] pre
  obtain shares where sh: "calculateShares (Some bill_refund) = Inr shares"
    and each: "\<forall>s \<in> set shares. taxShare s = Finite 0 \<and> serviceFeeShare s = Finite 0 \<and> totalOwed s = subtotal s"
    by blast
  from calculateShares_length [OF sh] have "length shares = 2" by (simp add: bill_refund_def)
  with sh each have "\<exists>shares. calculateShares (Some bill_refund) = Inr shares \<and> length shares = 2 \<and>
      list_all (\<lambda>s. taxShare s = Finite 0 \<and> serviceFeeShare s = Finite 0 \<and> totalOwed s = subtotal s) shares"
    by (auto simp add: list_all_iff)
  with pre fees show ?thesis by blast
qed

text \<open>
  C10. An item whose assignment names a participant id that is not in the bill's
  participant list is treated like an unassigned item: its step of the item loop adds
  its price to the running \<open>totalBillSubtotal\<close> and leaves the shares as they are;
  \<open>calculateShares\<close> gives the same result as for the bill with that assignment
  removed or set to \<open>null\<close>; the result is a normal return (\<open>Inr\<close>) in which the
  item is in no share's item list, and every share's subtotal is the running sum of the
  prices of the items in its list.
\<close>

theorem dangling_assignment_like_unassigned:
  "itemAssignments b (item_id item) = Some (Some pid) \<and> pid \<notin> set (map p_id (participants b))
   \<longrightarrow>
   (\<forall>shares total. map participantId shares = map p_id (participants b)
        \<longrightarrow> process_item b (shares, total) item = (shares, js_add total (price item))) \<and>
   calculateShares (Some b) =
     calculateShares (Some (b\<lparr>itemAssignments := (itemAssignments b)(item_id item := None)\<rparr>)) \<and>
   calculateShares (Some b) =
     calculateShares (Some (b\<lparr>itemAssignments := (itemAssignments b)(item_id item := Some None)\<rparr>)) \<and>
   (\<exists>result. calculateShares (Some b) = Inr result \<and>
      (\<forall>s \<in> set result. item \<notin> set (items s) \<and> subtotal s = js_sum (map price (items s))))"
proof
  assume h: "itemAssignments b (item_id item) = Some (Some pid) \<and> pid \<notin> set (map p_id (participants b))"
  then have asg: "itemAssignments b (item_id item) = Some (Some pid)"
    and absent: "pid \<notin> set (map p_id (participants b))"
    by simp_all
  have step: "\<forall>shares total. map participantId shares = map p_id (participants b)
        \<longrightarrow> process_item b (shares, total) item = (shares, js_add total (price item))"
  proof (intro allI impI)
    fix shares :: "ParticipantShare list" and total :: js_number
    assume "map participantId shares = map p_id (participants b)"
    with absent have "pid \<notin> set (map participantId (fst (shares, total)))" by simp
    from process_item_dangling [OF asg this]
    show "process_item b (shares, total) item = (shares, js_add total (price item))" by simp
  qed
  have undef: "calculateShares (Some b) =
     calculateShares (Some (b\<lparr>itemAssignments := (itemAssignments b)(item_id item := None)\<rparr>))"
    using calculateShares_reassign [OF asg absent, of None] by simp
  have null: "calculateShares (Some b) =
     calculateShares (Some (b\<lparr>itemAssignments := (itemAssignments b)(item_id item := Some None)\<rparr>))"
    using calculateShares_reassign [OF asg absent, of "Some None"] by simp
  obtain result where res: "calculateShares (Some b) = Inr result"
    using calculateShares_total by blast
  have "item \<notin> set (items s) \<and> subtotal s = js_sum (map price (items s))"
    if "s \<in> set result" for s
  proof -
    from calculateShares_share [OF res that]
    obtain s0 where s0: "s0 \<in> set (fst (process_items b))"
      and eq: "items s = items s0" "subtotal s = subtotal s0" "participantId s = participantId s0"
      by blast
    from process_items_inv [OF s0]
    have sub: "subtotal s0 = js_sum (map price (items s0))"
      and own: "\<forall>i \<in> set (items s0). itemAssignments b (item_id i) = Some (Some (participantId s0))"
      by simp_all
    have "item \<notin> set (items s0)"
    proof
      assume "item \<in> set (items s0)"
      with own asg have "pid = participantId s0" by simp
      with process_items_share_id [OF s0] absent show False by simp
    qed
    with sub eq show ?thesis by simp
  qed
  with res have "\<exists>result. calculateShares (Some b) = Inr result \<and>
      (\<forall>s \<in> set result. item \<notin> set (items s) \<and> subtotal s = js_sum (map price (items s)))"
    by blast
  with step undef null
  show "(\<forall>shares total. map participantId shares = map p_id (participants b)
        \<longrightarrow> process_item b (shares, total) item = (shares, js_add total (price item))) \<and>
   calculateShares (Some b) =
     calculateShares (Some (b\<lparr>itemAssignments := (itemAssignments b)(item_id item := None)\<rparr>)) \<and>
   calculateShares (Some b) =
     calculateShares (Some (b\<lparr>itemAssignments := (itemAssignments b)(item_id item := Some None)\<rparr>)) \<and>
   (\<exists>result. calculateShares (Some b) = Inr result \<and>
      (\<forall>s \<in> set result. item \<notin> set (items s) \<and> subtotal s = js_sum (map price (items s))))"
    by blast
qed

theorem dangling_assignment_like_unassigned_witness:
  "item_sate \<in> set (extractedItems bill_dangling) \<and>
   itemAssignments bill_dangling (item_id item_sate) = Some (Some ''Z'') \<and>
   ''Z'' \<notin> set (map p_id (participants bill_dangling)) \<and>
   process_item bill_dangling (map initial_share (participants bill_dangling), Finite 100) item_sate
     = (map initial_share (participants bill_dangling), Finite 140) \<and>
   calculateShares (Some bill_dangling) =
     calculateShares (Some (bill_dangling\<lparr>itemAssignments :=
        (itemAssignments bill_dangling)(item_id item_sate := None)\<rparr>)) \<and>
   (\<exists>result. calculateShares (Some bill_dangling) = Inr result \<and>
      list_all (\<lambda>s. item_sate \<notin> set (items s)) result)"
proof -
  have pre: "itemAssignments bill_dangling (item_id item_sate) = Some (Some ''Z'') \<and>
             ''Z'' \<notin> set (map p_id (participants bill_dangling))"
    by (simp add: bill_dangling_def item_sate_def ann_def bob_def)
  have mem: "item_sate \<in> set (extractedItems bill_dangling)"
    by (simp add: bill_dangling_def)
  have ids: "map participantId (map initial_share (participants bill_dangling))
               = map p_id (participants bill_dangling)"
    by (simp add: initial_share_def)
  have pr: "js_add (Finite 100) (price item_sate) = Finite 140"
    by (simp add: item_sate_def)
  from dangling_assignment_like_unassigned [of bill_dangling item_sate "''Z''"] pre
  have step: "\<forall>shares total. map participantId shares = map p_id (participants bill_dangling)
        \<longrightarrow> process_item bill_dangling (shares, total) item_sate = (shares, js_add total (price item_sate))"
    and same: "calculateShares (Some bill_dangling) =
     calculateShares (Some (bill_dangling\<lparr>itemAssignments :=
        (itemAssignments bill_dangling)(item_id item_sate := None)\<rparr>))"
    and res: "\<exists>result. calculateShares (Some bill_dangling) = Inr result \<and>
      (\<forall>s \<in> set result. item_sate \<notin> set (items s) \<and> subtotal s = js_sum (map price (items s)))"
    by blast+
  from step ids pr
  have "process_item bill_dangling (map initial_share (participants bill_dangling), Finite 100) item_sate
     = (map initial_share (participants bill_dangling), Finite 140)"
    by metis
  moreover from res have "\<exists>result. calculateShares (Some bill_dangling) = Inr result \<and>
      list_all (\<lambda>s. item_sate \<notin> set (items s)) result"
    by (auto simp add: list_all_iff)
  ultimately show ?thesis using pre mem same by blast
qed

end
